theory Spec2Isabelle
  imports Complex_Main "HOL-Library.Char_ord" "HOL-Library.List_Lexorder"
begin

section \<open>The PDF watcher: a shallow embedding of \<^verbatim>\<open>pdf_watcher.py\<close>\<close>

text \<open>
  The development follows the class \<^verbatim>\<open>PDFHandler\<close>: the stability loop
  \<^verbatim>\<open>is_file_stable\<close>, the orchestration in \<^verbatim>\<open>process_pdf\<close>, the encoding helper
  \<^verbatim>\<open>jpg_to_base64\<close> and the recognition loop \<^verbatim>\<open>extract_text_from_b64_images\<close>.

  Conventions of the embedding.
  \<^item> A Python \<^verbatim>\<open>str\<close> and a Python \<^verbatim>\<open>bytes\<close> are both a \<^typ>\<open>string\<close>: a list of
    8-bit characters. \<^term>\<open>of_char c :: nat\<close> is the byte value (or the code point, below 256).
  \<^item> A Python \<^verbatim>\<open>float\<close> (time stamps, durations, confidences) is idealised as a
    \<^typ>\<open>real\<close>; no property below depends on rounding.
  \<^item> An exception is a value of type \<open>exn\<close>; a call that can raise returns \<open>exn + 'a\<close>.
  \<^item> Log output (\<^verbatim>\<open>print\<close>) is not part of the state, but for the two averages that
    the extraction prints. Where \<^verbatim>\<open>process_pdf\<close> leaves by a different \<^verbatim>\<open>return\<close>, the
    model returns a tag naming the message printed there.
\<close>

subsection \<open>Exceptions\<close>

datatype exn =
    FileNotFoundError
  | PermissionError
  | OSError
  | ValueError
  | IndexError
  | BinasciiError
  | ServiceUnavailable
  | DefaultCredentialsError
  | SubprocessError

subsection \<open>\<^verbatim>\<open>is_file_stable\<close>\<close>

text \<open>
  One iteration of the \<^verbatim>\<open>while True\<close> loop makes one observation: the call
  \<^verbatim>\<open>os.path.getsize(file_path)\<close> followed by \<^verbatim>\<open>time.time()\<close>. The environment is the
  sequence of these observations. \<open>Observed n t\<close>: the size is \<open>n\<close> and the clock reads
  \<open>t\<close>. \<open>Vanished\<close>: \<^verbatim>\<open>getsize\<close> raises \<^verbatim>\<open>FileNotFoundError\<close>. \<open>StatFailed\<close>:
  \<^verbatim>\<open>getsize\<close> raises another \<^verbatim>\<open>OSError\<close>, which the loop does not catch.
\<close>

datatype sample = Observed nat real | Vanished | StatFailed

text \<open>
  Python's truth value of \<^verbatim>\<open>stable_start\<close>: \<^verbatim>\<open>None\<close> is false, and so is the float
  \<^verbatim>\<open>0.0\<close>.
\<close>

fun truthy :: "real option \<Rightarrow> bool" where
  "truthy None = False"
| "truthy (Some t) = (t \<noteq> 0)"

text \<open>
  The loop, with its two local variables \<^verbatim>\<open>last_size\<close> and \<^verbatim>\<open>stable_start\<close> as
  arguments. The result is \<open>None\<close> while the loop is still polling at the end of the
  observations given, \<open>Some (Inr b)\<close> when it has returned \<open>b\<close>, and \<open>Some (Inl e)\<close> when
  the exception \<open>e\<close> has left it. \<^verbatim>\<open>time.sleep(check_interval)\<close> only spaces the
  observations, whose clock readings are given.
\<close>

fun stable_loop :: "real \<Rightarrow> sample list \<Rightarrow> int \<Rightarrow> real option \<Rightarrow> (exn + bool) option" where
  "stable_loop stable_period [] last_size stable_start = None"
| "stable_loop stable_period (Vanished # rest) last_size stable_start = Some (Inr False)"
| "stable_loop stable_period (StatFailed # rest) last_size stable_start = Some (Inl PermissionError)"
| "stable_loop stable_period (Observed current_size current_time # rest) last_size stable_start =
     (if current_size = 0 then stable_loop stable_period rest last_size stable_start
      else if int current_size \<noteq> last_size
        then stable_loop stable_period rest (int current_size) (Some current_time)
      else if truthy stable_start \<and>
              (case stable_start of None \<Rightarrow> False
               | Some s \<Rightarrow> current_time - s \<ge> stable_period)
        then Some (Inr True)
      else stable_loop stable_period rest last_size stable_start)"

text \<open>
  \<^verbatim>\<open>is_file_stable(file_path, check_interval=1.0, stable_period=2.0)\<close>, entered with
  \<^verbatim>\<open>last_size = -1\<close> and \<^verbatim>\<open>stable_start = None\<close>.
\<close>

definition is_file_stable :: "real \<Rightarrow> sample list \<Rightarrow> (exn + bool) option" where
  "is_file_stable stable_period samples = stable_loop stable_period samples (- 1) None"

definition default_stable_period :: real where
  "default_stable_period = 2"

subsection \<open>Strings\<close>

text \<open>The string methods the source calls, for the arguments it calls them with.\<close>

fun startswith :: "string \<Rightarrow> string \<Rightarrow> bool" where
  "startswith s [] = True"
| "startswith [] (p # ps) = False"
| "startswith (c # cs) (p # ps) = (c = p \<and> startswith cs ps)"

definition endswith :: "string \<Rightarrow> string \<Rightarrow> bool" where
  "endswith s suffix = startswith (rev s) (rev suffix)"

text \<open>\<^verbatim>\<open>s.split(sep)\<close> for a separator of one character: never the empty list.\<close>

fun split :: "char \<Rightarrow> string \<Rightarrow> string list" where
  "split sep [] = [[]]"
| "split sep (c # cs) =
     (if c = sep then [] # split sep cs
      else (case split sep cs of [] \<Rightarrow> [[c]] | p # ps \<Rightarrow> (c # p) # ps))"

text \<open>\<^verbatim>\<open>s.replace(old, new)\<close> for a non-empty \<^verbatim>\<open>old\<close>: every occurrence, left to right.\<close>

function replace :: "string \<Rightarrow> string \<Rightarrow> string \<Rightarrow> string" where
  "replace [] old new = []"
| "replace (c # cs) old new =
     (if old \<noteq> [] \<and> startswith (c # cs) old
      then new @ replace (drop (length old) (c # cs)) old new
      else c # replace cs old new)"
  by pat_completeness auto
termination
  by (relation "measure (\<lambda>(s, old, new). length s)") auto

text \<open>
  \<^verbatim>\<open>str.isspace\<close> on the code points below 256: tab to carriage return, the four
  separators \<open>0x1c\<close> to \<open>0x1f\<close>, the space, \<open>0x85\<close> and \<open>0xa0\<close>. \<^verbatim>\<open>s.strip()\<close> removes
  these at both ends.
\<close>

definition isspace :: "char \<Rightarrow> bool" where
  "isspace c = (of_char c \<in> {9, 10, 11, 12, 13, 28, 29, 30, 31, 32, 133, 160 :: nat})"

definition strip :: "string \<Rightarrow> string" where
  "strip s = rev (dropWhile isspace (rev (dropWhile isspace s)))"

text \<open>\<^verbatim>\<open>sep.join(parts)\<close>.\<close>

fun join :: "string \<Rightarrow> string list \<Rightarrow> string" where
  "join sep [] = []"
| "join sep [p] = p"
| "join sep (p # q # ps) = p @ sep @ join sep (q # ps)"

text \<open>
  \<^verbatim>\<open>int(s)\<close> on a string: white space at both ends is skipped, one sign is allowed,
  then decimal digits, where single underscores may stand between two digits; anything
  else raises \<^verbatim>\<open>ValueError\<close>. The white space that \<^verbatim>\<open>int\<close> skips is not that of
  \<^verbatim>\<open>str.strip\<close>: tab to carriage return, the space, \<open>0x85\<close> and \<open>0xa0\<close>, and not
  the separators \<open>0x1c\<close> to \<open>0x1f\<close>, on which it raises. (Decimal digits beyond code
  point 255 and the limit on the number of digits are outside the model.)
\<close>

definition int_space :: "char \<Rightarrow> bool" where
  "int_space c = (of_char c \<in> {9, 10, 11, 12, 13, 32, 133, 160 :: nat})"

definition isdigit :: "char \<Rightarrow> bool" where
  "isdigit c = (48 \<le> (of_char c :: nat) \<and> (of_char c :: nat) \<le> 57)"

definition digit_value :: "char \<Rightarrow> nat" where
  "digit_value c = of_char c - 48"

fun parse_digits :: "nat \<Rightarrow> string \<Rightarrow> nat option" where
  "parse_digits acc [] = Some acc"
| "parse_digits acc [c] = (if isdigit c then Some (acc * 10 + digit_value c) else None)"
| "parse_digits acc (c # d # ds) =
     (if isdigit c then parse_digits (acc * 10 + digit_value c) (d # ds)
      else if c = CHR ''_'' \<and> isdigit d then parse_digits (acc * 10 + digit_value d) ds
      else None)"

definition py_int :: "string \<Rightarrow> exn + int" where
  "py_int s =
     (case rev (dropWhile int_space (rev (dropWhile int_space s))) of
        [] \<Rightarrow> Inl ValueError
      | c # cs \<Rightarrow>
          (let negative = (c = CHR ''-'');
               body = (if c = CHR ''-'' \<or> c = CHR ''+'' then cs else c # cs)
           in case body of
                [] \<Rightarrow> Inl ValueError
              | d # ds \<Rightarrow>
                  if isdigit d
                  then (case parse_digits (digit_value d) ds of
                          None \<Rightarrow> Inl ValueError
                        | Some n \<Rightarrow> Inr (if negative then - int n else int n))
                  else Inl ValueError))"

subsection \<open>Base64: \<^verbatim>\<open>base64.b64encode\<close> and \<^verbatim>\<open>base64.b64decode\<close>\<close>

text \<open>
  The standard alphabet of RFC 4648. The encoder takes three bytes to four characters
  and pads the last group with \<open>=\<close>; the six-bit groups are written with \<open>div\<close> and
  \<open>mod\<close> for the shifts and masks. \<^verbatim>\<open>.decode("utf-8")\<close> on the result is the identity
  here, since a string and a byte sequence are the same type.
\<close>

definition b64_alphabet :: string where
  "b64_alphabet = ''ABCDEFGHIJKLMNOPQRSTUVWXYZabcdefghijklmnopqrstuvwxyz0123456789+/''"

definition b64_char :: "nat \<Rightarrow> char" where
  "b64_char i = b64_alphabet ! (i mod 64)"

fun b64encode :: "string \<Rightarrow> string" where
  "b64encode [] = []"
| "b64encode [a] =
     [b64_char (of_char a div 4), b64_char (of_char a mod 4 * 16), CHR ''='', CHR ''='']"
| "b64encode [a, b] =
     [b64_char (of_char a div 4),
      b64_char (of_char a mod 4 * 16 + of_char b div 16),
      b64_char (of_char b mod 16 * 4), CHR ''='']"
| "b64encode (a # b # c # rest) =
     [b64_char (of_char a div 4),
      b64_char (of_char a mod 4 * 16 + of_char b div 16),
      b64_char (of_char b mod 16 * 4 + of_char c div 64),
      b64_char (of_char c mod 64)] @ b64encode rest"

text \<open>The position of a character in the alphabet, if it has one.\<close>

fun index_of :: "'a \<Rightarrow> 'a list \<Rightarrow> nat option" where
  "index_of c [] = None"
| "index_of c (x # xs) =
     (if c = x then Some 0 else (case index_of c xs of None \<Rightarrow> None | Some i \<Rightarrow> Some (Suc i)))"

definition b64_index :: "char \<Rightarrow> nat option" where
  "b64_index c = index_of c b64_alphabet"

text \<open>
  The decoder is the loop of \<^verbatim>\<open>binascii.a2b_base64\<close> in its default, non-strict mode,
  which \<^verbatim>\<open>base64.b64decode\<close> calls: a character outside the alphabet is skipped, a pad
  that completes a group of four ends the decoding, and input that ends inside a group
  raises \<^verbatim>\<open>binascii.Error\<close>. The state is the position in the group \<open>quad_pos\<close>, the
  bits left over \<open>leftchar\<close>, the pads seen \<open>pads\<close> and the bytes written. The C code's
  \<^verbatim>\<open>(leftchar << k) | (this_ch >> j)\<close> joins bit fields that do not overlap, so it is
  the sum written here; \<^term>\<open>char_of\<close> keeps the low eight bits.
\<close>

fun a2b_base64 :: "string \<Rightarrow> nat \<Rightarrow> nat \<Rightarrow> nat \<Rightarrow> string \<Rightarrow> exn + string" where
  "a2b_base64 [] quad_pos leftchar pads bin_data =
     (if quad_pos \<noteq> 0 then Inl BinasciiError else Inr bin_data)"
| "a2b_base64 (c # cs) quad_pos leftchar pads bin_data =
     (if c = CHR ''='' then
        (if quad_pos \<ge> 2 \<and> quad_pos + (pads + 1) \<ge> 4 then Inr bin_data
         else a2b_base64 cs quad_pos leftchar (if quad_pos \<ge> 2 then pads + 1 else pads) bin_data)
      else
        (case b64_index c of
           None \<Rightarrow> a2b_base64 cs quad_pos leftchar pads bin_data
         | Some this_ch \<Rightarrow>
             if quad_pos = 0 then a2b_base64 cs 1 this_ch 0 bin_data
             else if quad_pos = 1 then
               a2b_base64 cs 2 (this_ch mod 16) 0
                 (bin_data @ [char_of (leftchar * 4 + this_ch div 16)])
             else if quad_pos = 2 then
               a2b_base64 cs 3 (this_ch mod 4) 0
                 (bin_data @ [char_of (leftchar * 16 + this_ch div 4)])
             else
               a2b_base64 cs 0 0 0 (bin_data @ [char_of (leftchar * 64 + this_ch)])))"

text \<open>
  \<^verbatim>\<open>base64.b64decode(s)\<close> on a string first encodes it as ASCII, which raises
  \<^verbatim>\<open>ValueError\<close> on a character from 128 on.
\<close>

definition b64decode :: "string \<Rightarrow> exn + string" where
  "b64decode s =
     (if list_ex (\<lambda>c. (of_char c :: nat) \<ge> 128) s then Inl ValueError
      else a2b_base64 s 0 0 0 [])"

subsection \<open>The response of the recognition service\<close>

text \<open>
  The message types of \<^verbatim>\<open>google.cloud.vision\<close> that the source reads, field by
  field. A message field that the service left unset reads as the empty message, a
  string as the empty string and a number as \<open>0\<close>: the service sending no full-text
  annotation is \<open>full_text_annotation\<close> with no text and no pages. \<open>sym_break\<close> is
  \<^verbatim>\<open>symbol.property.detected_break.type\<close>.
\<close>

record vertex =
  vx :: int
  vy :: int

record ocr_symbol =
  sym_text :: string
  sym_confidence :: real
  sym_break :: int

record ocr_word =
  word_symbols :: "ocr_symbol list"
  word_confidence :: real
  word_bounding_box :: "vertex list"

record ocr_paragraph =
  para_words :: "ocr_word list"
  para_confidence :: real
  para_bounding_box :: "vertex list"

record ocr_block =
  block_paragraphs :: "ocr_paragraph list"
  block_confidence :: real
  block_bounding_box :: "vertex list"

record ocr_page =
  page_blocks :: "ocr_block list"

record text_annotation =
  ta_pages :: "ocr_page list"
  ta_text :: string

record annotate_response =
  error_message :: string
  full_text_annotation :: text_annotation

text \<open>
  The truth value of a message, as in \<^verbatim>\<open>if response.full_text_annotation\<close>: some
  field is set.
\<close>

definition annotation_present :: "text_annotation \<Rightarrow> bool" where
  "annotation_present a = (ta_pages a \<noteq> [] \<or> ta_text a \<noteq> [])"

text \<open>
  \<^verbatim>\<open>vision.TextAnnotation.DetectedBreak.BreakType(n).name\<close>: the enumeration has the
  members 0 to 5, and a number that is none of them raises \<^verbatim>\<open>ValueError\<close>.
\<close>

definition break_type_name :: "int \<Rightarrow> exn + string" where
  "break_type_name n =
     (if n = 0 then Inr ''UNKNOWN''
      else if n = 1 then Inr ''SPACE''
      else if n = 2 then Inr ''SURE_SPACE''
      else if n = 3 then Inr ''EOL_SURE_SPACE''
      else if n = 4 then Inr ''HYPHEN''
      else if n = 5 then Inr ''LINE_BREAK''
      else Inl ValueError)"

subsection \<open>The structured output\<close>

text \<open>
  The dictionaries that \<^verbatim>\<open>extract_text_from_b64_images\<close> builds, one record for each
  shape. A key that the source sets only on a condition (\<^verbatim>\<open>break_type\<close>) is an option.
\<close>

record symbol_data =
  sd_text :: string
  sd_confidence :: real
  sd_break_type :: "string option"

record word_data =
  wd_word_id :: nat
  wd_text :: string
  wd_confidence :: real
  wd_bounding_box :: "(int \<times> int) list"
  wd_symbols :: "symbol_data list"

record paragraph_data =
  pa_paragraph_id :: nat
  pa_confidence :: real
  pa_bounding_box :: "(int \<times> int) list"
  pa_words :: "word_data list"
  pa_text :: string

record block_data =
  bd_block_id :: nat
  bd_confidence :: real
  bd_bounding_box :: "(int \<times> int) list"
  bd_paragraphs :: "paragraph_data list"

record page_data =
  pd_page_number :: int
  pd_full_text :: string
  pd_blocks :: "block_data list"

record page_timing =
  pt_page :: int
  pt_file :: string
  pt_total_time :: real
  pt_api_call_time :: real
  pt_text_length :: nat

text \<open>\<^verbatim>\<open>_get_bounding_box\<close>: the vertices, in order.\<close>

definition get_bounding_box :: "vertex list \<Rightarrow> (int \<times> int) list" where
  "get_bounding_box vertices = map (\<lambda>v. (vx v, vy v)) vertices"

text \<open>
  A \<^verbatim>\<open>for\<close> loop that appends one result for each element and is left by the first
  exception raised in its body.
\<close>

fun for_each :: "('a \<Rightarrow> exn + 'b) \<Rightarrow> 'a list \<Rightarrow> exn + 'b list" where
  "for_each body [] = Inr []"
| "for_each body (x # xs) =
     (case body x of
        Inl e \<Rightarrow> Inl e
      | Inr y \<Rightarrow> (case for_each body xs of Inl e \<Rightarrow> Inl e | Inr ys \<Rightarrow> Inr (y # ys)))"

text \<open>The body of the loop over \<^verbatim>\<open>word.symbols\<close>.\<close>

definition build_symbol :: "ocr_symbol \<Rightarrow> exn + symbol_data" where
  "build_symbol s =
     (if sym_break s \<noteq> 0 then
        (case break_type_name (sym_break s) of
           Inl e \<Rightarrow> Inl e
         | Inr break_type \<Rightarrow>
             Inr \<lparr>sd_text = sym_text s, sd_confidence = sym_confidence s,
                  sd_break_type = Some break_type\<rparr>)
      else
        Inr \<lparr>sd_text = sym_text s, sd_confidence = sym_confidence s, sd_break_type = None\<rparr>)"

text \<open>\<^verbatim>\<open>word_text = ''.join([symbol.text for symbol in word.symbols])\<close>.\<close>

definition word_text :: "ocr_word \<Rightarrow> string" where
  "word_text w = join [] (map sym_text (word_symbols w))"

text \<open>The body of the loop over \<^verbatim>\<open>enumerate(paragraph.words)\<close>.\<close>

definition build_word :: "nat \<times> ocr_word \<Rightarrow> exn + word_data" where
  "build_word iw =
     (case iw of (word_idx, w) \<Rightarrow>
        (case for_each build_symbol (word_symbols w) of
           Inl e \<Rightarrow> Inl e
         | Inr symbols \<Rightarrow>
             Inr \<lparr>wd_word_id = word_idx, wd_text = word_text w,
                  wd_confidence = word_confidence w,
                  wd_bounding_box = get_bounding_box (word_bounding_box w),
                  wd_symbols = symbols\<rparr>))"

text \<open>
  \<^verbatim>\<open>para_text\<close> starts empty and grows by \<^verbatim>\<open>word_text + ' '\<close> for each word; the
  paragraph's text is \<^verbatim>\<open>para_text.strip()\<close>.
\<close>

definition para_text :: "ocr_word list \<Rightarrow> string" where
  "para_text ws = foldl (\<lambda>text w. text @ (word_text w @ '' '')) [] ws"

definition build_paragraph :: "nat \<times> ocr_paragraph \<Rightarrow> exn + paragraph_data" where
  "build_paragraph ip =
     (case ip of (para_idx, p) \<Rightarrow>
        (case for_each build_word (enumerate 0 (para_words p)) of
           Inl e \<Rightarrow> Inl e
         | Inr ws \<Rightarrow>
             Inr \<lparr>pa_paragraph_id = para_idx, pa_confidence = para_confidence p,
                  pa_bounding_box = get_bounding_box (para_bounding_box p),
                  pa_words = ws, pa_text = strip (para_text (para_words p))\<rparr>))"

definition build_block :: "nat \<times> ocr_block \<Rightarrow> exn + block_data" where
  "build_block ib =
     (case ib of (block_idx, b) \<Rightarrow>
        (case for_each build_paragraph (enumerate 0 (block_paragraphs b)) of
           Inl e \<Rightarrow> Inl e
         | Inr ps \<Rightarrow>
             Inr \<lparr>bd_block_id = block_idx, bd_confidence = block_confidence b,
                  bd_bounding_box = get_bounding_box (block_bounding_box b),
                  bd_paragraphs = ps\<rparr>))"

text \<open>
  The loop over \<^verbatim>\<open>response.full_text_annotation.pages\<close>: the blocks of every page go
  to the one list \<^verbatim>\<open>page_data['blocks']\<close>, and \<^verbatim>\<open>block_id\<close> counts from 0 in each
  page.
\<close>

definition build_blocks :: "ocr_page list \<Rightarrow> exn + block_data list" where
  "build_blocks pages =
     (case for_each (\<lambda>pg. for_each build_block (enumerate 0 (page_blocks pg))) pages of
        Inl e \<Rightarrow> Inl e
      | Inr bss \<Rightarrow> Inr (concat bss))"

definition full_text_of :: "annotate_response \<Rightarrow> string" where
  "full_text_of response =
     (if annotation_present (full_text_annotation response)
      then ta_text (full_text_annotation response) else [])"

definition build_page_data :: "int \<Rightarrow> annotate_response \<Rightarrow> exn + page_data" where
  "build_page_data page_num response =
     (case build_blocks (ta_pages (full_text_annotation response)) of
        Inl e \<Rightarrow> Inl e
      | Inr blocks \<Rightarrow>
          Inr \<lparr>pd_page_number = page_num, pd_full_text = full_text_of response,
               pd_blocks = blocks\<rparr>)"

subsection \<open>The watch directory and the environment\<close>

text \<open>
  The state of a run is the directory \<^verbatim>\<open>/images\<close>. \<open>dir\<close> lists its entries by name
  with their content, in the order in which \<^verbatim>\<open>os.listdir\<close> returns them, which is
  arbitrary. The four files that the source writes with \<^verbatim>\<open>json.dump\<close> or as joined
  text are kept by their value, not serialised, one field each; \<open>None\<close>: the file
  does not exist, or a failed write has left it empty or cut short. (The clock readings
  among their fields are left out.) \<open>unreadable\<close> and \<open>unwritable\<close> name the files that
  \<^verbatim>\<open>open\<close> refuses to read or to write. \<open>write_fails\<close> names the files that can be
  opened for writing but whose write then raises (the disk is full, say), with the
  number of characters that reach the file before it does. \<open>reported_averages\<close> is the
  pair of averages, of the total time and of the API time for a page, that the extraction
  has last printed.
\<close>

record extraction_timing =
  et_pages :: "page_timing list"
  et_total_pages :: nat

record processing_timing =
  pr_pdf_path :: string
  pr_pdf_size_bytes :: "nat option"

record world =
  dir :: "(string \<times> string) list"
  unreadable :: "string list"
  unwritable :: "string list"
  write_fails :: "(string \<times> nat) list"
  reported_averages :: "(real \<times> real) option"
  extracted_text :: "string option"
  extracted_structured_text :: "page_data list option"
  extraction_timing_json :: "extraction_timing option"
  processing_timing_json :: "processing_timing option"

definition watch_dir :: string where
  "watch_dir = ''/images''"

definition input_name :: string where
  "input_name = ''input.pdf''"

text \<open>\<^verbatim>\<open>os.path.join\<close> of the watch directory and an entry's name.\<close>

definition path_join :: "string \<Rightarrow> string \<Rightarrow> string" where
  "path_join d name = d @ ''/'' @ name"

definition input_file :: string where
  "input_file = path_join watch_dir input_name"

definition listdir :: "world \<Rightarrow> string list" where
  "listdir w = map fst (dir w)"

fun store :: "string \<Rightarrow> string \<Rightarrow> (string \<times> string) list \<Rightarrow> (string \<times> string) list" where
  "store name content [] = [(name, content)]"
| "store name content ((n, c) # entries) =
     (if n = name then (name, content) # entries else (n, c) # store name content entries)"

definition getsize :: "world \<Rightarrow> string \<Rightarrow> exn + nat" where
  "getsize w name =
     (case map_of (dir w) name of None \<Rightarrow> Inl FileNotFoundError | Some c \<Rightarrow> Inr (length c))"

definition read_file :: "world \<Rightarrow> string \<Rightarrow> exn + string" where
  "read_file w name =
     (case map_of (dir w) name of
        None \<Rightarrow> Inl FileNotFoundError
      | Some c \<Rightarrow> if name \<in> set (unreadable w) then Inl PermissionError else Inr c)"

text \<open>
  \<^verbatim>\<open>with open(path, 'w') as f: f.write(content)\<close>. When \<^verbatim>\<open>open\<close> raises, the
  directory is as before. Once the file is open it exists and is empty; a write that
  raises leaves in it the characters written so far.
\<close>

definition write_file :: "world \<Rightarrow> string \<Rightarrow> string \<Rightarrow> exn option \<times> world" where
  "write_file w name content =
     (if name \<in> set (unwritable w) then (Some PermissionError, w)
      else
        (case map_of (write_fails w) name of
           Some written \<Rightarrow> (Some OSError, w\<lparr>dir := store name (take written content) (dir w)\<rparr>)
         | None \<Rightarrow> (None, w\<lparr>dir := store name content (dir w)\<rparr>)))"

text \<open>
  What a run meets outside the directory. \<open>samples\<close>: the observations of the input
  file made by the stability loop. \<open>conversion\<close>: how \<^verbatim>\<open>subprocess.run\<close> on the
  \<^verbatim>\<open>convert\<close> command ends, with the files the tool has written by then.
  \<open>client_created\<close>: whether \<^verbatim>\<open>vision.ImageAnnotatorClient()\<close> returns.
  \<open>document_text_detection\<close>: the service's answer for an image, or the exception the
  call raises. \<open>page_clock\<close>: for a payload file, the two durations measured while it is
  processed, \<^verbatim>\<open>page_duration\<close> and \<^verbatim>\<open>api_call_duration\<close>.
\<close>

datatype conversion =
    Exited int "(string \<times> string) list"
  | TimeoutExpired "(string \<times> string) list"
  | Raised exn

record env =
  samples :: "sample list"
  conversion :: conversion
  client_created :: bool
  document_text_detection :: "string \<Rightarrow> exn + annotate_response"
  page_clock :: "string \<Rightarrow> real \<times> real"

subsection \<open>\<^verbatim>\<open>jpg_to_base64\<close> and the encoding loop\<close>

definition jpg_to_base64 :: "world \<Rightarrow> string \<Rightarrow> exn + string" where
  "jpg_to_base64 w image_path =
     (case read_file w image_path of Inl e \<Rightarrow> Inl e | Inr content \<Rightarrow> Inr (b64encode content))"

text \<open>
  The body of \<^verbatim>\<open>for jpg_file in jpg_files\<close>: \<^verbatim>\<open>os.stat\<close>, the encoding, and the
  write of the payload file. Nothing in the body catches an exception. The result is the
  exception that leaves the body, if any, and the directory as the body leaves it.
\<close>

definition encode_page :: "world \<Rightarrow> string \<Rightarrow> exn option \<times> world" where
  "encode_page w jpg_file =
     (case getsize w jpg_file of
        Inl e \<Rightarrow> (Some e, w)
      | Inr file_size \<Rightarrow>
          (case jpg_to_base64 w jpg_file of
             Inl e \<Rightarrow> (Some e, w)
           | Inr b64_content \<Rightarrow>
               write_file w (replace jpg_file ''.jpg'' ''.b64'') b64_content))"

text \<open>
  The loop: an exception leaves it with the directory as the pages before, and the
  failing page, have left it.
\<close>

fun encode_pages :: "world \<Rightarrow> string list \<Rightarrow> exn option \<times> world" where
  "encode_pages w [] = (None, w)"
| "encode_pages w (jpg_file # jpg_files) =
     (case encode_page w jpg_file of
        (Some e, w') \<Rightarrow> (Some e, w')
      | (None, w') \<Rightarrow> encode_pages w' jpg_files)"

subsection \<open>\<^verbatim>\<open>extract_text_from_b64_images\<close>\<close>

text \<open>\<^verbatim>\<open>int(b64_file.split('-')[1].split('.')[0])\<close>.\<close>

definition page_num_of :: "string \<Rightarrow> exn + int" where
  "page_num_of b64_file =
     (case split CHR ''-'' b64_file of
        a # b # rest \<Rightarrow>
          (case split CHR ''.'' b of [] \<Rightarrow> Inl IndexError | t # ts \<Rightarrow> py_int t)
      | _ \<Rightarrow> Inl IndexError)"

text \<open>
  The image that an iteration sends to the service: the payload file is read as text
  and \<^verbatim>\<open>base64.b64decode\<close> is applied to what it holds.
\<close>

definition read_payload :: "world \<Rightarrow> string \<Rightarrow> exn + string" where
  "read_payload w b64_file =
     (case read_file w b64_file of
        Inl e \<Rightarrow> Inl e
      | Inr b64_content \<Rightarrow> b64decode b64_content)"

text \<open>
  One iteration of \<^verbatim>\<open>for b64_file in b64_files\<close>. It ends in an exception, in
  \<^verbatim>\<open>continue\<close> (\<open>Skipped\<close>), or with the three values it appends to \<^verbatim>\<open>all_text\<close>,
  \<^verbatim>\<open>all_structured_data\<close> and \<^verbatim>\<open>page_timings\<close>.
\<close>

datatype page_result = Skipped | Extracted string page_data page_timing

definition recognize_page :: "env \<Rightarrow> world \<Rightarrow> string \<Rightarrow> exn + page_result" where
  "recognize_page env w b64_file =
     (case page_num_of b64_file of
        Inl e \<Rightarrow> Inl e
      | Inr page_num \<Rightarrow>
     (case read_payload w b64_file of
        Inl e \<Rightarrow> Inl e
      | Inr content \<Rightarrow>
     (case document_text_detection env content of
        Inl e \<Rightarrow> Inl e
      | Inr response \<Rightarrow>
          if error_message response \<noteq> [] then Inr Skipped
          else
            (case build_page_data page_num response of
               Inl e \<Rightarrow> Inl e
             | Inr page_data \<Rightarrow>
                 Inr (Extracted (full_text_of response) page_data
                       \<lparr>pt_page = page_num, pt_file = b64_file,
                        pt_total_time = fst (page_clock env b64_file),
                        pt_api_call_time = snd (page_clock env b64_file),
                        pt_text_length = length (full_text_of response)\<rparr>)))))"

fun recognize_pages ::
  "env \<Rightarrow> world \<Rightarrow> string list \<Rightarrow> string list \<times> page_data list \<times> page_timing list \<Rightarrow>
     exn + string list \<times> page_data list \<times> page_timing list" where
  "recognize_pages env w [] acc = Inr acc"
| "recognize_pages env w (b64_file # b64_files) acc =
     (case recognize_page env w b64_file of
        Inl e \<Rightarrow> Inl e
      | Inr Skipped \<Rightarrow> recognize_pages env w b64_files acc
      | Inr (Extracted full_text page_data timing) \<Rightarrow>
          (case acc of (all_text, all_structured_data, page_timings) \<Rightarrow>
             recognize_pages env w b64_files
               (all_text @ [full_text], all_structured_data @ [page_data],
                page_timings @ [timing])))"

text \<open>
  The averages that the source computes from \<^verbatim>\<open>page_timings\<close> and prints, when the
  list is not empty: \<^verbatim>\<open>avg_total_time\<close> and \<^verbatim>\<open>avg_api_time\<close>.
\<close>

definition report_averages :: "world \<Rightarrow> page_timing list \<Rightarrow> world" where
  "report_averages w page_timings =
     (if page_timings \<noteq> [] then
        (let avg_total_time =
               sum_list (map pt_total_time page_timings) / real (length page_timings);
             avg_api_time =
               sum_list (map pt_api_call_time page_timings) / real (length page_timings)
         in w\<lparr>reported_averages := Some (avg_total_time, avg_api_time)\<rparr>)
      else w)"

text \<open>
  The three writes that end the function, in the order of the source. Each of them can
  raise, at \<^verbatim>\<open>open\<close> or after it, and the exception leaves the function with the writes
  before it done.
\<close>

definition save_results ::
  "world \<Rightarrow> string list \<times> page_data list \<times> page_timing list \<Rightarrow> exn option \<times> world" where
  "save_results w acc =
     (case acc of (all_text, all_structured_data, page_timings) \<Rightarrow>
        if ''extraction_timing.json'' \<in> set (unwritable w) then (Some PermissionError, w)
        else if map_of (write_fails w) ''extraction_timing.json'' \<noteq> None
        then (Some OSError, w\<lparr>extraction_timing_json := None\<rparr>)
        else
          (let w1 = w\<lparr>extraction_timing_json :=
                       Some \<lparr>et_pages = page_timings, et_total_pages = length page_timings\<rparr>\<rparr>
           in if ''extracted_text.txt'' \<in> set (unwritable w1) then (Some PermissionError, w1)
              else if map_of (write_fails w1) ''extracted_text.txt'' \<noteq> None
              then (Some OSError, w1\<lparr>extracted_text := None\<rparr>)
              else
                (let w2 = w1\<lparr>extracted_text := Some (join [CHR 10, CHR 10] all_text)\<rparr>
                 in if ''extracted_structured_text.json'' \<in> set (unwritable w2)
                    then (Some PermissionError, w2)
                    else if map_of (write_fails w2) ''extracted_structured_text.json'' \<noteq> None
                    then (Some OSError, w2\<lparr>extracted_structured_text := None\<rparr>)
                    else (None, w2\<lparr>extracted_structured_text := Some all_structured_data\<rparr>))))"

definition b64_files_of :: "world \<Rightarrow> string list" where
  "b64_files_of w =
     sort (filter (\<lambda>f. startswith f ''output-'' \<and> endswith f ''.b64'') (listdir w))"

definition extract_text_from_b64_images :: "env \<Rightarrow> world \<Rightarrow> exn option \<times> world" where
  "extract_text_from_b64_images env w =
     (let b64_files = b64_files_of w
      in if b64_files = [] then (None, w)
         else if \<not> client_created env then (Some DefaultCredentialsError, w)
         else
           (case recognize_pages env w b64_files ([], [], []) of
              Inl e \<Rightarrow> (Some e, w)
            | Inr acc \<Rightarrow> save_results (report_averages w (snd (snd acc))) acc))"

subsection \<open>\<^verbatim>\<open>process_pdf\<close>\<close>

text \<open>
  How a run ends, by the message printed at the \<^verbatim>\<open>return\<close> or \<^verbatim>\<open>except\<close> clause
  that ends it.
\<close>

datatype run_end =
    NotStable
  | ErrorOccurred exn
  | ConversionTimedOut
  | CommandFailed int
  | NoOutputFiles
  | SubprocessTimeout
  | ConversionError exn
  | Completed

definition jpg_files_of :: "world \<Rightarrow> string list" where
  "jpg_files_of w =
     sort (filter (\<lambda>f. startswith f ''output-'' \<and> endswith f ''.jpg'') (listdir w))"

definition convert_writes :: "(string \<times> string) list \<Rightarrow> world \<Rightarrow> world" where
  "convert_writes produced w =
     w\<lparr>dir := foldl (\<lambda>entries (name, content). store name content entries) (dir w) produced\<rparr>"

text \<open>
  The \<^verbatim>\<open>try\<close> block from the stable file on. (The \<^verbatim>\<open>pdfinfo\<close> call catches all its
  exceptions and only prints, so it has no part in the state.)
\<close>

definition convert_and_extract :: "env \<Rightarrow> world \<Rightarrow> run_end \<times> world" where
  "convert_and_extract env w =
     (case getsize w input_name of
        Inl e \<Rightarrow> (ErrorOccurred e, w)
      | Inr file_size \<Rightarrow>
          (case conversion env of
             Raised e \<Rightarrow> (ConversionError e, w)
           | TimeoutExpired produced \<Rightarrow> (SubprocessTimeout, convert_writes produced w)
           | Exited returncode produced \<Rightarrow>
               (let w1 = convert_writes produced w
                in if returncode = 124 then (ConversionTimedOut, w1)
                   else if returncode \<noteq> 0 then (CommandFailed returncode, w1)
                   else
                     (let jpg_files = jpg_files_of w1
                      in if jpg_files = [] then (NoOutputFiles, w1)
                         else
                           (case encode_pages w1 jpg_files of
                              (Some e, w2) \<Rightarrow> (ConversionError e, w2)
                            | (None, w2) \<Rightarrow>
                                (case extract_text_from_b64_images env w2 of
                                   (Some e, w3) \<Rightarrow> (ConversionError e, w3)
                                 | (None, w3) \<Rightarrow> (Completed, w3)))))))"

text \<open>
  The \<^verbatim>\<open>finally\<close> clause: \<^verbatim>\<open>processing_timing.json\<close> is written on every way out of
  the \<^verbatim>\<open>try\<close> block, and a failure to write it is caught. (The write of this small
  file is taken to succeed once the file is open.)
\<close>

definition save_timing :: "world \<Rightarrow> world" where
  "save_timing w =
     (if ''processing_timing.json'' \<in> set (unwritable w) then w
      else w\<lparr>processing_timing_json :=
               Some \<lparr>pr_pdf_path = input_file,
                     pr_pdf_size_bytes =
                       (case getsize w input_name of Inl e \<Rightarrow> None | Inr n \<Rightarrow> Some n)\<rparr>\<rparr>)"

text \<open>
  \<^verbatim>\<open>process_pdf\<close>. The result is \<open>None\<close> when the stability loop is still polling at
  the end of the observations given.
\<close>

definition process_pdf :: "env \<Rightarrow> world \<Rightarrow> (run_end \<times> world) option" where
  "process_pdf env w =
     (case is_file_stable default_stable_period (samples env) of
        None \<Rightarrow> None
      | Some (Inl e) \<Rightarrow> Some (ErrorOccurred e, save_timing w)
      | Some (Inr False) \<Rightarrow> Some (NotStable, save_timing w)
      | Some (Inr True) \<Rightarrow>
          (case convert_and_extract env w of (ending, w') \<Rightarrow> Some (ending, save_timing w')))"

subsection \<open>An example response\<close>

text \<open>
  A response for a page reading \<open>Hi yo\<close>: one block, one paragraph, two words; a space
  is reported after \<open>i\<close> and a line break after \<open>o\<close>. \<open>example_page_data\<close> is the
  entry built from it for page 1.
\<close>

definition example_response :: annotate_response where
  "example_response =
     \<lparr>error_message = [],
      full_text_annotation =
        \<lparr>ta_pages =
           [\<lparr>page_blocks =
               [\<lparr>block_paragraphs =
                   [\<lparr>para_words =
                       [\<lparr>word_symbols =
                           [\<lparr>sym_text = ''H'', sym_confidence = 1, sym_break = 0\<rparr>,
                            \<lparr>sym_text = ''i'', sym_confidence = 1, sym_break = 1\<rparr>],
                         word_confidence = 1, word_bounding_box = []\<rparr>,
                        \<lparr>word_symbols =
                           [\<lparr>sym_text = ''y'', sym_confidence = 1, sym_break = 0\<rparr>,
                            \<lparr>sym_text = ''o'', sym_confidence = 1, sym_break = 5\<rparr>],
                         word_confidence = 1, word_bounding_box = []\<rparr>],
                     para_confidence = 1, para_bounding_box = []\<rparr>],
                 block_confidence = 1,
                 block_bounding_box = [\<lparr>vx = 0, vy = 0\<rparr>, \<lparr>vx = 9, vy = 0\<rparr>,
                                       \<lparr>vx = 9, vy = 9\<rparr>, \<lparr>vx = 0, vy = 9\<rparr>]\<rparr>]\<rparr>],
         ta_text = ''Hi yo''\<rparr>\<rparr>"

definition example_page_data :: page_data where
  "example_page_data =
     \<lparr>pd_page_number = 1, pd_full_text = ''Hi yo'',
      pd_blocks =
        [\<lparr>bd_block_id = 0, bd_confidence = 1,
          bd_bounding_box = [(0, 0), (9, 0), (9, 9), (0, 9)],
          bd_paragraphs =
            [\<lparr>pa_paragraph_id = 0, pa_confidence = 1, pa_bounding_box = [],
              pa_words =
                [\<lparr>wd_word_id = 0, wd_text = ''Hi'', wd_confidence = 1, wd_bounding_box = [],
                  wd_symbols =
                    [\<lparr>sd_text = ''H'', sd_confidence = 1, sd_break_type = None\<rparr>,
                     \<lparr>sd_text = ''i'', sd_confidence = 1, sd_break_type = Some ''SPACE''\<rparr>]\<rparr>,
                 \<lparr>wd_word_id = 1, wd_text = ''yo'', wd_confidence = 1, wd_bounding_box = [],
                  wd_symbols =
                    [\<lparr>sd_text = ''y'', sd_confidence = 1, sd_break_type = None\<rparr>,
                     \<lparr>sd_text = ''o'', sd_confidence = 1,
                      sd_break_type = Some ''LINE_BREAK''\<rparr>]\<rparr>],
              pa_text = ''Hi yo''\<rparr>]\<rparr>]\<rparr>"

subsection \<open>Example runs\<close>

text \<open>
  An empty directory and one holding an input file; a service that reads back the bytes
  of the image as its text, reports an error for the image \<open>bad\<close> and sends no
  annotation for the image \<open>blank\<close>; an environment around it, with the observations
  of the input file and the files that the conversion writes left open.
\<close>

definition empty_world :: world where
  "empty_world =
     \<lparr>dir = [], unreadable = [], unwritable = [], write_fails = [],
      reported_averages = None, extracted_text = None,
      extracted_structured_text = None, extraction_timing_json = None,
      processing_timing_json = None\<rparr>"

definition pdf_world :: world where
  "pdf_world = empty_world\<lparr>dir := [(''input.pdf'', ''%PDF'')]\<rparr>"

definition example_detect :: "string \<Rightarrow> exn + annotate_response" where
  "example_detect content =
     (if content = ''bad''
      then Inr \<lparr>error_message = ''quota exceeded'',
                full_text_annotation = \<lparr>ta_pages = [], ta_text = []\<rparr>\<rparr>
      else if content = ''blank''
      then Inr \<lparr>error_message = [], full_text_annotation = \<lparr>ta_pages = [], ta_text = []\<rparr>\<rparr>
      else Inr \<lparr>error_message = [],
                full_text_annotation = \<lparr>ta_pages = [], ta_text = content\<rparr>\<rparr>)"

definition example_env :: "sample list \<Rightarrow> (string \<times> string) list \<Rightarrow> env" where
  "example_env observations produced =
     \<lparr>samples = observations, conversion = Exited 0 produced, client_created = True,
      document_text_detection = example_detect, page_clock = (\<lambda>f. (3, 2))\<rparr>"

definition stable_samples :: "sample list" where
  "stable_samples = [Observed 4 10, Observed 4 11, Observed 4 12]"

text \<open>The page images of a conversion of three pages.\<close>

definition three_pages :: "(string \<times> string) list" where
  "three_pages = [(''output-1.jpg'', ''one''), (''output-2.jpg'', ''two''), (''output-3.jpg'', ''three'')]"

text \<open>
  A directory that holds the payloads of four pages and nothing else: the service
  refuses the second page and sends no annotation for the third.
\<close>

definition payload_world :: world where
  "payload_world =
     empty_world\<lparr>dir := [(''output-1.b64'', b64encode ''one''),
                          (''output-2.b64'', b64encode ''bad''),
                          (''output-3.b64'', b64encode ''blank''),
                          (''output-4.b64'', b64encode ''four'')]\<rparr>"

text \<open>The page images of a conversion whose page numbers have one and two digits.\<close>

definition mixed_width_pages :: "(string \<times> string) list" where
  "mixed_width_pages = [(''output-2.jpg'', ''two''), (''output-10.jpg'', ''ten'')]"

text \<open>The page images of three pages, of which the service refuses the second.\<close>

definition second_page_refused :: "(string \<times> string) list" where
  "second_page_refused =
     [(''output-1.jpg'', ''one''), (''output-2.jpg'', ''bad''), (''output-3.jpg'', ''three'')]"

text \<open>A directory that holds one page image, the first bytes of a JPEG file.\<close>

definition jpeg_world :: world where
  "jpeg_world =
     empty_world\<lparr>dir := [(''output-0.jpg'', [CHR 0xFF, CHR 0xD8, CHR 0xFF, CHR 0xE0, CHR 0x00])]\<rparr>"

section \<open>Properties of the stability loop\<close>

lemma stable_loop_returns_at:
  "stable_loop p xs ls ss = Some (Inr True) \<Longrightarrow>
     \<exists>ys n t zs. xs = ys @ Observed n t # zs \<and> 0 < n \<and>
        stable_loop p ys ls ss = None \<and>
        stable_loop p (ys @ [Observed n t]) ls ss = Some (Inr True)"
proof (induction p xs ls ss rule: stable_loop.induct)
  case (1 p ls ss)
  then show ?case by simp
next
  case (2 p rest ls ss)
  then show ?case by simp
next
  case (3 p rest ls ss)
  then show ?case by simp
next
  case (4 p n t rest ls ss)
  let ?stop = "n \<noteq> 0 \<and> int n = ls \<and> truthy ss \<and>
     (case ss of None \<Rightarrow> False | Some s \<Rightarrow> t - s \<ge> p)"
  show ?case
  proof (cases ?stop)
    case True
    then have "stable_loop p ([] @ [Observed n t]) ls ss = Some (Inr True)" by simp
    moreover have "stable_loop p [] ls ss = None" by simp
    moreover have "Observed n t # rest = [] @ Observed n t # rest" by simp
    moreover have "0 < n" using True by simp
    ultimately show ?thesis by blast
  next
    case False
    define ls' where "ls' = (if n = 0 then ls else int n)"
    define ss' where "ss' = (if n = 0 \<or> int n = ls then ss else Some t)"
    have step: "\<And>more. stable_loop p (Observed n t # more) ls ss = stable_loop p more ls' ss'"
      using False by (auto simp: ls'_def ss'_def)
    have "stable_loop p rest ls' ss' = Some (Inr True)"
      using "4.prems" step by simp
    moreover have ih: "stable_loop p rest ls' ss' = Some (Inr True) \<Longrightarrow>
       \<exists>ys m u zs. rest = ys @ Observed m u # zs \<and> 0 < m \<and>
         stable_loop p ys ls' ss' = None \<and>
         stable_loop p (ys @ [Observed m u]) ls' ss' = Some (Inr True)"
      using "4.IH" False by (auto simp: ls'_def ss'_def split: if_splits)
    ultimately obtain ys m u zs where r: "rest = ys @ Observed m u # zs" "0 < m"
        "stable_loop p ys ls' ss' = None"
        "stable_loop p (ys @ [Observed m u]) ls' ss' = Some (Inr True)"
      by blast
    have "Observed n t # rest = (Observed n t # ys) @ Observed m u # zs" using r(1) by simp
    moreover have "stable_loop p (Observed n t # ys) ls ss = None" using r(3) step by simp
    moreover have "stable_loop p ((Observed n t # ys) @ [Observed m u]) ls ss = Some (Inr True)"
      using r(4) step by simp
    ultimately show ?thesis using r(2) by blast
  qed
qed

text \<open>
  C7. A zero-byte file is never declared stable. Whenever \<^verbatim>\<open>is_file_stable\<close> returns
  \<^verbatim>\<open>True\<close>, the observation at which it returns (the one that ends the shortest
  sequence of observations on which it has returned) has a size greater than zero; and
  on observations that are all of size zero, however many and however far apart, it is
  still polling.
\<close>

theorem zero_size_never_stable:
  "(is_file_stable p xs = Some (Inr True) \<longrightarrow>
      (\<exists>ys n t zs. xs = ys @ Observed n t # zs \<and> 0 < n \<and>
         is_file_stable p ys = None \<and>
         is_file_stable p (ys @ [Observed n t]) = Some (Inr True))) \<and>
   ((\<forall>s \<in> set xs. \<exists>t. s = Observed 0 t) \<longrightarrow> is_file_stable p xs = None)"
proof
  show "is_file_stable p xs = Some (Inr True) \<longrightarrow>
      (\<exists>ys n t zs. xs = ys @ Observed n t # zs \<and> 0 < n \<and>
         is_file_stable p ys = None \<and>
         is_file_stable p (ys @ [Observed n t]) = Some (Inr True))"
    unfolding is_file_stable_def using stable_loop_returns_at by blast
next
  have "(\<forall>s \<in> set xs. \<exists>t. s = Observed 0 t) \<Longrightarrow> stable_loop p xs ls ss = None" for ls ss
    by (induction xs) auto
  then show "(\<forall>s \<in> set xs. \<exists>t. s = Observed 0 t) \<longrightarrow> is_file_stable p xs = None"
    unfolding is_file_stable_def by blast
qed

theorem zero_size_never_stable_witness:
  "is_file_stable 2 [Observed 100 10, Observed 100 12] = Some (Inr True) \<and>
   (\<exists>ys n t zs. [Observed 100 10, Observed 100 12] = ys @ Observed n t # zs \<and> 0 < n \<and>
         is_file_stable 2 ys = None \<and>
         is_file_stable 2 (ys @ [Observed n t]) = Some (Inr True)) \<and>
   is_file_stable 2 [Observed 0 10, Observed 0 500] = None"
proof -
  have a: "is_file_stable 2 [Observed 100 10, Observed 100 12] = Some (Inr True)"
    by (simp add: is_file_stable_def)
  have b: "\<forall>s \<in> set [Observed 0 10, Observed 0 500]. \<exists>t. s = Observed 0 t"
    by simp
  from a b zero_size_never_stable [of 2 "[Observed 100 10, Observed 100 12]"]
    zero_size_never_stable [of 2 "[Observed 0 10, Observed 0 500]"]
  show ?thesis by blast
qed

text \<open>
  C6. An observation of size zero takes \<^verbatim>\<open>continue\<close> before the loop touches its
  variables: \<^verbatim>\<open>last_size\<close> and \<^verbatim>\<open>stable_start\<close> stay as they were, and
  \<^verbatim>\<open>stable_start\<close> is not unset. So a file seen at 100 bytes, then at 0 bytes, then at
  100 bytes again is declared stable one second after the empty observation, with the
  quiet period of two seconds counted from before it.
\<close>

theorem zero_size_sample_keeps_stable_start:
  "stable_loop p (Observed 0 t # rest) last_size stable_start =
     stable_loop p rest last_size stable_start \<and>
   is_file_stable default_stable_period [Observed 100 10, Observed 0 11] = None \<and>
   is_file_stable default_stable_period [Observed 100 10, Observed 0 11, Observed 100 12] =
     Some (Inr True)"
  by (simp add: is_file_stable_def default_stable_period_def)

section \<open>The transport encoding\<close>

lemma index_of_nth:
  "distinct xs \<Longrightarrow> i < length xs \<Longrightarrow> index_of (xs ! i) xs = Some i"
proof (induction xs arbitrary: i)
  case Nil
  then show ?case by simp
next
  case (Cons x xs)
  show ?case
  proof (cases i)
    case 0
    then show ?thesis by simp
  next
    case (Suc j)
    with Cons.prems have "j < length xs" "xs ! j \<noteq> x" "distinct xs" by auto
    with Cons.IH [of j] Suc show ?thesis by simp
  qed
qed

lemma distinct_b64_alphabet: "distinct b64_alphabet"
  by (simp add: b64_alphabet_def)

lemma length_b64_alphabet: "length b64_alphabet = 64"
  by (simp add: b64_alphabet_def)

lemma b64_index_char: "i < 64 \<Longrightarrow> b64_index (b64_char i) = Some i"
  unfolding b64_index_def b64_char_def
  using index_of_nth [OF distinct_b64_alphabet, of i] by (simp add: length_b64_alphabet)

lemma b64_alphabet_ascii: "\<forall>c \<in> set b64_alphabet. c \<noteq> CHR ''='' \<and> (of_char c :: nat) < 128"
  by (simp add: b64_alphabet_def)

lemma b64_char_in: "b64_char i \<in> set b64_alphabet"
  unfolding b64_char_def by (rule nth_mem) (simp add: length_b64_alphabet)

lemma b64_char_not_pad: "b64_char i \<noteq> CHR ''=''"
  using b64_alphabet_ascii b64_char_in by blast

lemma b64_char_ascii: "(of_char (b64_char i) :: nat) < 128"
  using b64_alphabet_ascii b64_char_in by blast

text \<open>One character of data, from each position in the group.\<close>

lemma a2b_data:
  assumes "i < 64"
  shows "a2b_base64 (b64_char i # cs) q l p out =
     (if q = 0 then a2b_base64 cs 1 i 0 out
      else if q = 1 then a2b_base64 cs 2 (i mod 16) 0 (out @ [char_of (l * 4 + i div 16)])
      else if q = 2 then a2b_base64 cs 3 (i mod 4) 0 (out @ [char_of (l * 16 + i div 4)])
      else a2b_base64 cs 0 0 0 (out @ [char_of (l * 64 + i)]))"
  using assms by (simp add: b64_char_not_pad b64_index_char)

lemma a2b_pad:
  "a2b_base64 (CHR ''='' # cs) q l p out =
     (if q \<ge> 2 \<and> q + (p + 1) \<ge> 4 then Inr out
      else a2b_base64 cs q l (if q \<ge> 2 then p + 1 else p) out)"
  by simp

lemma small_div:
  "b div 16 div 16 = (0::nat)" "b div 64 div 4 = (0::nat)"
  "b div 16 mod 16 = b div 16" "b div 64 mod 4 = b div 64" if "b < 256"
  using that by simp_all

lemma sextet1: "a div 4 < (64::nat)" if "a < 256"
  using that by simp

lemma sextet2: "a mod 4 * 16 + b div 16 < (64::nat)" if "b < 256"
proof -
  have "b div 16 < 16" using that by simp
  moreover have "a mod 4 < 4" by simp
  ultimately show ?thesis by linarith
qed

lemma sextet3: "b mod 16 * 4 + c div 64 < (64::nat)" if "c < 256"
proof -
  have "c div 64 < 4" using that by simp
  moreover have "b mod 16 < 16" by simp
  ultimately show ?thesis by linarith
qed

lemma a2b_group3:
  "a2b_base64 (b64_char (of_char a div 4) #
               b64_char (of_char a mod 4 * 16 + of_char b div 16) #
               b64_char (of_char b mod 16 * 4 + of_char c div 64) #
               b64_char (of_char c mod 64) # cs) 0 l p out
   = a2b_base64 cs 0 0 0 (out @ [a, b, c])"
proof -
  define A B C :: nat where "A = of_char a" and "B = of_char b" and "C = of_char c"
  have lt: "A < 256" "B < 256" "C < 256" by (simp_all add: A_def B_def C_def)
  have ch: "char_of A = a" "char_of B = b" "char_of C = c" by (simp_all add: A_def B_def C_def)
  have s4: "C mod 64 < 64" by simp
  show ?thesis
    unfolding A_def [symmetric] B_def [symmetric] C_def [symmetric]
    by (simp del: a2b_base64.simps
        add: a2b_data [OF sextet1 [OF lt(1)]] a2b_data [OF sextet2 [OF lt(2)]]
        a2b_data [OF sextet3 [OF lt(3)]] a2b_data [OF s4]
        small_div [OF lt(2)] small_div [OF lt(3)] ch)
qed

lemma a2b_group2:
  "a2b_base64 [b64_char (of_char a div 4),
               b64_char (of_char a mod 4 * 16 + of_char b div 16),
               b64_char (of_char b mod 16 * 4), CHR ''=''] 0 l p out
   = Inr (out @ [a, b])"
proof -
  define A B :: nat where "A = of_char a" and "B = of_char b"
  have lt: "A < 256" "B < 256" "(0::nat) < 256" by (simp_all add: A_def B_def)
  have ch: "char_of A = a" "char_of B = b" by (simp_all add: A_def B_def)
  have s3: "B mod 16 * 4 < 64" using sextet3 [OF lt(3), of B] by simp
  show ?thesis
    unfolding A_def [symmetric] B_def [symmetric]
    by (simp del: a2b_base64.simps
        add: a2b_data [OF sextet1 [OF lt(1)]] a2b_data [OF sextet2 [OF lt(2)]]
        a2b_data [OF s3] a2b_pad small_div [OF lt(2)] ch)
qed

lemma a2b_group1:
  "a2b_base64 [b64_char (of_char a div 4), b64_char (of_char a mod 4 * 16),
               CHR ''='', CHR ''=''] 0 l p out
   = Inr (out @ [a])"
proof -
  define A :: nat where "A = of_char a"
  have lt: "A < 256" "(0::nat) < 256" by (simp_all add: A_def)
  have ch: "char_of A = a" by (simp add: A_def)
  have s2: "A mod 4 * 16 < 64" using sextet2 [OF lt(2), of A] by simp
  show ?thesis
    unfolding A_def [symmetric]
    by (simp del: a2b_base64.simps
        add: a2b_data [OF sextet1 [OF lt(1)]] a2b_data [OF s2] a2b_pad ch)
qed

lemma a2b_b64encode:
  "a2b_base64 (b64encode s) 0 l p out = Inr (out @ s)"
proof (induction s arbitrary: l p out rule: b64encode.induct)
  case 1
  show ?case by simp
next
  case (2 a)
  show ?case using a2b_group1 [of a l p out] by (simp del: a2b_base64.simps)
next
  case (3 a b)
  show ?case using a2b_group2 [of a b l p out] by (simp del: a2b_base64.simps)
next
  case (4 a b c rest)
  show ?case using a2b_group3 [of a b c "b64encode rest" l p out] "4.IH" [of 0 0 "out @ [a, b, c]"]
    by (simp del: a2b_base64.simps)
qed

lemma b64encode_ascii: "\<not> list_ex (\<lambda>c. (of_char c :: nat) \<ge> 128) (b64encode s)"
  by (induction s rule: b64encode.induct) (simp_all add: b64_char_ascii not_le)

lemma b64decode_b64encode: "b64decode (b64encode content) = Inr content"
  using a2b_b64encode [of content 0 0 "[]"] by (simp add: b64decode_def b64encode_ascii)

section \<open>The structured document model\<close>

lemma for_each_rel:
  "for_each body xs = Inr ys \<Longrightarrow> list_all2 (\<lambda>x y. body x = Inr y) xs ys"
proof (induction xs arbitrary: ys)
  case Nil
  then show ?case by simp
next
  case (Cons x xs)
  then obtain y ys' where "body x = Inr y" "for_each body xs = Inr ys'" "ys = y # ys'"
    by (auto split: sum.splits)
  with Cons.IH show ?case by simp
qed

lemma for_each_enumerate_rel:
  assumes "for_each body (enumerate n xs) = Inr ys"
    and "\<And>i x y. body (i, x) = Inr y \<Longrightarrow> R x y"
  shows "list_all2 R xs ys"
proof -
  have "list_all2 (\<lambda>ix y. body ix = Inr y) (enumerate n xs) ys"
    using assms(1) by (rule for_each_rel)
  then have "list_all2 (\<lambda>ix y. R (snd ix) y) (enumerate n xs) ys"
    by (rule list_all2_mono) (use assms(2) in auto)
  then have "list_all2 R (map snd (enumerate n xs)) ys"
    by (simp only: list_all2_map1)
  then show ?thesis by simp
qed

lemma list_all2_concat:
  "list_all2 (list_all2 R) xss yss \<Longrightarrow> list_all2 R (concat xss) (concat yss)"
  by (induction xss yss rule: list_all2_induct) (auto intro: list_all2_appendI)















lemma example_built: "build_page_data 1 example_response = Inr example_page_data"
  by code_simp


lemma build_symbol_break:
  "build_symbol s = Inr sd \<Longrightarrow>
     (sd_break_type sd \<noteq> None \<longleftrightarrow> sym_break s \<noteq> 0) \<and> sd_break_type sd \<noteq> Some ''UNKNOWN''"
  by (auto simp: build_symbol_def break_type_name_def split: if_splits)

lemma build_word_break:
  assumes "build_word (i, w) = Inr wd"
  shows "list_all2 (\<lambda>s sd. (sd_break_type sd \<noteq> None \<longleftrightarrow> sym_break s \<noteq> 0) \<and>
                  sd_break_type sd \<noteq> Some ''UNKNOWN'') (word_symbols w) (wd_symbols wd)"
proof -
  from assms obtain sds where sds: "for_each build_symbol (word_symbols w) = Inr sds"
    and wd: "wd_symbols wd = sds"
    by (auto simp: build_word_def split: sum.splits)
  show ?thesis
    unfolding wd using for_each_rel [OF sds]
    by (rule list_all2_mono) (rule build_symbol_break)
qed

lemma build_paragraph_break:
  assumes "build_paragraph (i, p) = Inr pd"
  shows "list_all2 (\<lambda>w wd. list_all2 (\<lambda>s sd. (sd_break_type sd \<noteq> None \<longleftrightarrow> sym_break s \<noteq> 0) \<and>
                  sd_break_type sd \<noteq> Some ''UNKNOWN'') (word_symbols w) (wd_symbols wd))
           (para_words p) (pa_words pd)"
proof -
  from assms obtain wds where wds: "for_each build_word (enumerate 0 (para_words p)) = Inr wds"
    and pd: "pa_words pd = wds"
    by (auto simp: build_paragraph_def split: sum.splits)
  show ?thesis
    unfolding pd using wds by (rule for_each_enumerate_rel) (rule build_word_break)
qed

lemma build_block_break:
  assumes "build_block (i, b) = Inr bd"
  shows "list_all2 (\<lambda>p pd. list_all2 (\<lambda>w wd. list_all2 (\<lambda>s sd.
              (sd_break_type sd \<noteq> None \<longleftrightarrow> sym_break s \<noteq> 0) \<and>
              sd_break_type sd \<noteq> Some ''UNKNOWN'') (word_symbols w) (wd_symbols wd))
           (para_words p) (pa_words pd)) (block_paragraphs b) (bd_paragraphs bd)"
proof -
  from assms obtain pds where
    pds: "for_each build_paragraph (enumerate 0 (block_paragraphs b)) = Inr pds"
    and bd: "bd_paragraphs bd = pds"
    by (auto simp: build_block_def split: sum.splits)
  show ?thesis
    unfolding bd using pds by (rule for_each_enumerate_rel) (rule build_paragraph_break)
qed

text \<open>
  C8. In every page entry that is built, the symbols of the entry are the symbols of the
  response, position by position through blocks, paragraphs and words, and a symbol of
  the entry has a \<open>break_type\<close> exactly when the response reports a break type other
  than 0 for it; the tag is never the name \<open>UNKNOWN\<close> of the type 0.
\<close>

theorem break_type_tag:
  assumes "build_page_data page_num response = Inr page_data"
  shows "list_all2 (\<lambda>b bd. list_all2 (\<lambda>p pd. list_all2 (\<lambda>w wd. list_all2 (\<lambda>s sd.
              (sd_break_type sd \<noteq> None \<longleftrightarrow> sym_break s \<noteq> 0) \<and>
              sd_break_type sd \<noteq> Some ''UNKNOWN'') (word_symbols w) (wd_symbols wd))
           (para_words p) (pa_words pd)) (block_paragraphs b) (bd_paragraphs bd))
         (concat (map page_blocks (ta_pages (full_text_annotation response))))
         (pd_blocks page_data)"
proof -
  let ?R = "\<lambda>(b :: ocr_block) bd. list_all2 (\<lambda>p pd. list_all2 (\<lambda>w wd. list_all2 (\<lambda>s sd.
              (sd_break_type sd \<noteq> None \<longleftrightarrow> sym_break s \<noteq> 0) \<and>
              sd_break_type sd \<noteq> Some ''UNKNOWN'') (word_symbols w) (wd_symbols wd))
           (para_words p) (pa_words pd)) (block_paragraphs b) (bd_paragraphs bd)"
  let ?pages = "ta_pages (full_text_annotation response)"
  from assms obtain bss where
    bss: "for_each (\<lambda>pg. for_each build_block (enumerate 0 (page_blocks pg))) ?pages = Inr bss"
    and pd: "pd_blocks page_data = concat bss"
    by (auto simp: build_page_data_def build_blocks_def split: sum.splits)
  have "list_all2 (\<lambda>pg bs. list_all2 ?R (page_blocks pg) bs) ?pages bss"
    using for_each_rel [OF bss]
  proof (rule list_all2_mono)
    fix pg :: ocr_page and bs
    assume "for_each build_block (enumerate 0 (page_blocks pg)) = Inr bs"
    then show "list_all2 ?R (page_blocks pg) bs"
      by (rule for_each_enumerate_rel) (rule build_block_break)
  qed
  then have "list_all2 (list_all2 ?R) (map page_blocks ?pages) bss"
    by (simp only: list_all2_map1)
  then have "list_all2 ?R (concat (map page_blocks ?pages)) (concat bss)"
    by (rule list_all2_concat)
  then show ?thesis unfolding pd .
qed

theorem break_type_tag_witness:
  "build_page_data 1 example_response = Inr example_page_data \<and>
   list_all2 (\<lambda>b bd. list_all2 (\<lambda>p pd. list_all2 (\<lambda>w wd. list_all2 (\<lambda>s sd.
              (sd_break_type sd \<noteq> None \<longleftrightarrow> sym_break s \<noteq> 0) \<and>
              sd_break_type sd \<noteq> Some ''UNKNOWN'') (word_symbols w) (wd_symbols wd))
           (para_words p) (pa_words pd)) (block_paragraphs b) (bd_paragraphs bd))
         (concat (map page_blocks (ta_pages (full_text_annotation example_response))))
         (pd_blocks example_page_data)"
  using example_built break_type_tag [OF example_built] by blast


section \<open>The orchestration of a run\<close>







section \<open>The encoding stage\<close>

text \<open>
  \<^verbatim>\<open>int\<close> raises on a separator \<open>0x1c\<close> and skips \<open>0xa0\<close> and \<open>0x85\<close>.
\<close>

lemma py_int_examples:
  "py_int ([CHR 0x1C] @ ''5'') = Inl ValueError \<and> py_int ([CHR 0xA0] @ '' 5'' @ [CHR 0x85]) = Inr 5 \<and>
   py_int ''-1_0'' = Inr (- 10) \<and> page_num_of ''output-12.b64'' = Inr 12"
  by code_simp

lemma map_of_store: "map_of (store name content entries) name = Some content"
  by (induction name content entries rule: store.induct) simp_all

lemma store_names: "fst ` set (store name content entries) = insert name (fst ` set entries)"
  by (induction name content entries rule: store.induct) (simp_all add: insert_commute)

lemma write_file_ok:
  "write_file w name content = (None, w') \<Longrightarrow> w' = w\<lparr>dir := store name content (dir w)\<rparr>"
  by (auto simp: write_file_def split: if_splits option.splits)

lemma write_file_err:
  "write_file w name content = (Some e, w') \<Longrightarrow>
     w' = w \<or> (\<exists>written. w' = w\<lparr>dir := store name (take written content) (dir w)\<rparr>)"
  by (auto simp: write_file_def split: if_splits option.splits)

lemma encode_page_ok:
  assumes "encode_page w jpg_file = (None, w')"
  shows "\<exists>content. read_file w jpg_file = Inr content \<and> map_of (dir w) jpg_file = Some content \<and>
           jpg_to_base64 w jpg_file = Inr (b64encode content) \<and>
           w' = w\<lparr>dir := store (replace jpg_file ''.jpg'' ''.b64'') (b64encode content) (dir w)\<rparr>"
proof -
  from assms obtain b64_content where
    j: "jpg_to_base64 w jpg_file = Inr b64_content"
    and wr: "write_file w (replace jpg_file ''.jpg'' ''.b64'') b64_content = (None, w')"
    by (auto simp: encode_page_def split: sum.splits)
  from j obtain content where c: "read_file w jpg_file = Inr content"
    "b64_content = b64encode content"
    by (auto simp: jpg_to_base64_def split: sum.splits)
  from c(1) have "map_of (dir w) jpg_file = Some content"
    by (auto simp: read_file_def split: option.splits if_splits)
  with c j write_file_ok [OF wr] show ?thesis by simp
qed

lemma encode_page_err:
  assumes "encode_page w jpg_file = (Some e, w')"
  shows "w' = w \<or> (\<exists>content written. map_of (dir w) jpg_file = Some content \<and>
           w' = w\<lparr>dir := store (replace jpg_file ''.jpg'' ''.b64'')
                              (take written (b64encode content)) (dir w)\<rparr>)"
proof (cases "getsize w jpg_file")
  case (Inl e')
  with assms show ?thesis by (simp add: encode_page_def)
next
  case (Inr n)
  show ?thesis
  proof (cases "jpg_to_base64 w jpg_file")
    case (Inl e')
    with Inr assms show ?thesis by (simp add: encode_page_def)
  next
    case b: (Inr b64_content)
    then obtain content where c: "read_file w jpg_file = Inr content"
      "b64_content = b64encode content"
      by (auto simp: jpg_to_base64_def split: sum.splits)
    from c(1) have m: "map_of (dir w) jpg_file = Some content"
      by (auto simp: read_file_def split: option.splits if_splits)
    from assms Inr b have
      "write_file w (replace jpg_file ''.jpg'' ''.b64'') b64_content = (Some e, w')"
      by (simp add: encode_page_def)
    from write_file_err [OF this] m c(2) show ?thesis by blast
  qed
qed

text \<open>
  C9. When the encoding loop has encoded a page, the payload file holds the base64
  text that \<^verbatim>\<open>jpg_to_base64\<close> computes from the bytes of the page image, and the
  recognition loop, which reads that file and applies \<^verbatim>\<open>base64.b64decode\<close> to it, gets
  the bytes of the image back, the same bytes in the same order, without an exception.
\<close>

theorem payload_roundtrip:
  assumes "encode_page w jpg_file = (None, w')"
    and "replace jpg_file ''.jpg'' ''.b64'' \<notin> set (unreadable w')"
  shows "\<exists>content. read_file w jpg_file = Inr content \<and>
           jpg_to_base64 w jpg_file = Inr (b64encode content) \<and>
           read_file w' (replace jpg_file ''.jpg'' ''.b64'') = Inr (b64encode content) \<and>
           read_payload w' (replace jpg_file ''.jpg'' ''.b64'') = Inr content"
proof -
  from encode_page_ok [OF assms(1)] obtain content where
    c: "read_file w jpg_file = Inr content"
      "jpg_to_base64 w jpg_file = Inr (b64encode content)"
      "w' = w\<lparr>dir := store (replace jpg_file ''.jpg'' ''.b64'') (b64encode content) (dir w)\<rparr>"
    by blast
  have "map_of (dir w') (replace jpg_file ''.jpg'' ''.b64'') = Some (b64encode content)"
    unfolding c(3) by (simp add: map_of_store)
  then have r: "read_file w' (replace jpg_file ''.jpg'' ''.b64'') = Inr (b64encode content)"
    using assms(2) by (simp add: read_file_def)
  then have "read_payload w' (replace jpg_file ''.jpg'' ''.b64'') = Inr content"
    by (simp add: read_payload_def b64decode_b64encode)
  with c r show ?thesis by blast
qed

theorem payload_roundtrip_witness:
  "encode_page jpeg_world ''output-0.jpg'' =
     (None, jpeg_world\<lparr>dir := [(''output-0.jpg'', [CHR 0xFF, CHR 0xD8, CHR 0xFF, CHR 0xE0, CHR 0x00]),
                              (''output-0.b64'', ''/9j/4AA='')]\<rparr>) \<and>
   replace ''output-0.jpg'' ''.jpg'' ''.b64'' = ''output-0.b64'' \<and>
   ''output-0.b64'' \<notin> set (unreadable jpeg_world) \<and>
   read_file jpeg_world ''output-0.jpg'' = Inr [CHR 0xFF, CHR 0xD8, CHR 0xFF, CHR 0xE0, CHR 0x00] \<and>
   read_payload
     (jpeg_world\<lparr>dir := [(''output-0.jpg'', [CHR 0xFF, CHR 0xD8, CHR 0xFF, CHR 0xE0, CHR 0x00]),
                         (''output-0.b64'', ''/9j/4AA='')]\<rparr>) ''output-0.b64'' =
     Inr [CHR 0xFF, CHR 0xD8, CHR 0xFF, CHR 0xE0, CHR 0x00]"
proof -
  let ?jpg = "[CHR 0xFF, CHR 0xD8, CHR 0xFF, CHR 0xE0, CHR 0x00]"
  let ?w' = "jpeg_world\<lparr>dir := [(''output-0.jpg'', ?jpg), (''output-0.b64'', ''/9j/4AA='')]\<rparr>"
  have a: "encode_page jpeg_world ''output-0.jpg'' = (None, ?w')" by code_simp
  have n: "replace ''output-0.jpg'' ''.jpg'' ''.b64'' = ''output-0.b64''" by code_simp
  have b: "replace ''output-0.jpg'' ''.jpg'' ''.b64'' \<notin> set (unreadable ?w')"
    by (simp add: jpeg_world_def empty_world_def)
  have b': "''output-0.b64'' \<notin> set (unreadable jpeg_world)"
    by (simp add: jpeg_world_def empty_world_def)
  have c: "read_file jpeg_world ''output-0.jpg'' = Inr ?jpg" by code_simp
  from payload_roundtrip [OF a b] a n b' c show ?thesis by auto
qed


lemma encode_pages_ok:
  "encode_pages w jpg_files = (None, w') \<Longrightarrow>
     w' = w\<lparr>dir :=
            foldl (\<lambda>entries f. case map_of entries f of
                      None \<Rightarrow> entries
                    | Some content \<Rightarrow>
                        store (replace f ''.jpg'' ''.b64'') (b64encode content) entries)
              (dir w) jpg_files\<rparr>"
proof (induction jpg_files arbitrary: w)
  case Nil
  then show ?case by simp
next
  case (Cons f fs)
  from Cons.prems obtain w1 where
    p: "encode_page w f = (None, w1)" and r: "encode_pages w1 fs = (None, w')"
    by (auto split: prod.splits option.splits)
  from encode_page_ok [OF p] obtain content where
    c: "map_of (dir w) f = Some content"
      "w1 = w\<lparr>dir := store (replace f ''.jpg'' ''.b64'') (b64encode content) (dir w)\<rparr>"
    by blast
  from Cons.IH [OF r] c show ?case by simp
qed

lemma encode_pages_names:
  "encode_pages w jpg_files = (None, w') \<Longrightarrow>
     set (listdir w) \<subseteq> set (listdir w') \<and>
     (\<forall>f \<in> set jpg_files. replace f ''.jpg'' ''.b64'' \<in> set (listdir w'))"
proof (induction jpg_files arbitrary: w)
  case Nil
  then show ?case by simp
next
  case (Cons f fs)
  from Cons.prems obtain w1 where
    p: "encode_page w f = (None, w1)" and r: "encode_pages w1 fs = (None, w')"
    by (auto split: prod.splits option.splits)
  from encode_page_ok [OF p] obtain content where
    "w1 = w\<lparr>dir := store (replace f ''.jpg'' ''.b64'') (b64encode content) (dir w)\<rparr>"
    by blast
  then have "set (listdir w1) = insert (replace f ''.jpg'' ''.b64'') (set (listdir w))"
    by (simp add: listdir_def store_names)
  with Cons.IH [OF r] show ?case by auto
qed

lemma encode_pages_append:
  "encode_pages w encoded = (None, w1) \<Longrightarrow>
     encode_pages w (encoded @ rest) = encode_pages w1 rest"
proof (induction encoded arbitrary: w)
  case Nil
  then show ?case by simp
next
  case (Cons f fs)
  then show ?case by (auto split: prod.splits option.splits)
qed

text \<open>
  C3, as amended. An exception while one page is encoded or its payload is written is
  not kept to that page: it ends the run at the message for a failed conversion. The
  pages before it, in the sorted order, have been encoded: the directory is the one the
  conversion left, with the payload of each of these pages stored, and each of their
  payload files exists. Of the failing page, the payload file is left untouched or, when
  the write fails after the file is open, holds a beginning of the payload. Nothing is
  written for the pages after it. Recognition and aggregation do not run, so the text
  file, the structured JSON and the extraction timing are as they were; and the
  \<^verbatim>\<open>finally\<close> clause saves the overall timing.
\<close>

theorem encoding_error_ends_run:
  assumes stable: "is_file_stable default_stable_period (samples env) = Some (Inr True)"
    and input: "getsize w input_name = Inr n"
    and conv: "conversion env = Exited 0 produced"
    and files: "jpg_files_of (convert_writes produced w) = encoded @ jpg_file # remaining"
    and before: "encode_pages (convert_writes produced w) encoded = (None, w1)"
    and err: "encode_page w1 jpg_file = (Some e, w2)"
  shows "process_pdf env w = Some (ConversionError e, save_timing w2) \<and>
         dir w1 =
           foldl (\<lambda>entries f. case map_of entries f of
                     None \<Rightarrow> entries
                   | Some content \<Rightarrow>
                       store (replace f ''.jpg'' ''.b64'') (b64encode content) entries)
             (dir (convert_writes produced w)) encoded \<and>
         (\<forall>f \<in> set encoded. replace f ''.jpg'' ''.b64'' \<in> set (listdir w1)) \<and>
         (dir w2 = dir w1 \<or>
          (\<exists>content written. map_of (dir w1) jpg_file = Some content \<and>
             dir w2 = store (replace jpg_file ''.jpg'' ''.b64'')
                        (take written (b64encode content)) (dir w1))) \<and>
         extracted_text w2 = extracted_text w \<and>
         extracted_structured_text w2 = extracted_structured_text w \<and>
         extraction_timing_json w2 = extraction_timing_json w"
proof -
  have "encode_pages (convert_writes produced w) (encoded @ jpg_file # remaining) = (Some e, w2)"
    using encode_pages_append [OF before] err by simp
  then have "convert_and_extract env w = (ConversionError e, w2)"
    using input conv files by (simp add: convert_and_extract_def)
  then have run: "process_pdf env w = Some (ConversionError e, save_timing w2)"
    using stable by (simp add: process_pdf_def)
  note w1 = encode_pages_ok [OF before]
  have d1: "dir w1 =
           foldl (\<lambda>entries f. case map_of entries f of
                     None \<Rightarrow> entries
                   | Some content \<Rightarrow>
                       store (replace f ''.jpg'' ''.b64'') (b64encode content) entries)
             (dir (convert_writes produced w)) encoded"
    by (subst w1) simp
  have names: "\<forall>f \<in> set encoded. replace f ''.jpg'' ''.b64'' \<in> set (listdir w1)"
    using encode_pages_names [OF before] by blast
  have f1: "extracted_text w1 = extracted_text w"
    "extracted_structured_text w1 = extracted_structured_text w"
    "extraction_timing_json w1 = extraction_timing_json w"
    by (subst w1, simp add: convert_writes_def)+
  from encode_page_err [OF err]
  have w2: "w2 = w1 \<or> (\<exists>content written. map_of (dir w1) jpg_file = Some content \<and>
           w2 = w1\<lparr>dir := store (replace jpg_file ''.jpg'' ''.b64'')
                              (take written (b64encode content)) (dir w1)\<rparr>)" .
  then have d2: "dir w2 = dir w1 \<or>
          (\<exists>content written. map_of (dir w1) jpg_file = Some content \<and>
             dir w2 = store (replace jpg_file ''.jpg'' ''.b64'')
                        (take written (b64encode content)) (dir w1))"
    by auto
  from w2 f1 have f2: "extracted_text w2 = extracted_text w"
    "extracted_structured_text w2 = extracted_structured_text w"
    "extraction_timing_json w2 = extraction_timing_json w"
    by auto
  from run d1 names d2 f2 show ?thesis by blast
qed

theorem encoding_error_ends_run_witness:
  "is_file_stable default_stable_period (samples (example_env stable_samples three_pages)) =
     Some (Inr True) \<and>
   getsize (pdf_world\<lparr>write_fails := [(''output-2.b64'', 3)]\<rparr>) input_name = Inr 4 \<and>
   conversion (example_env stable_samples three_pages) = Exited 0 three_pages \<and>
   jpg_files_of (convert_writes three_pages (pdf_world\<lparr>write_fails := [(''output-2.b64'', 3)]\<rparr>)) =
     [''output-1.jpg''] @ ''output-2.jpg'' # [''output-3.jpg''] \<and>
   encode_pages (convert_writes three_pages (pdf_world\<lparr>write_fails := [(''output-2.b64'', 3)]\<rparr>))
       [''output-1.jpg''] =
     (None, pdf_world\<lparr>write_fails := [(''output-2.b64'', 3)],
              dir := [(''input.pdf'', ''%PDF''), (''output-1.jpg'', ''one''),
                      (''output-2.jpg'', ''two''), (''output-3.jpg'', ''three''),
                      (''output-1.b64'', ''b25l'')]\<rparr>) \<and>
   encode_page (pdf_world\<lparr>write_fails := [(''output-2.b64'', 3)],
              dir := [(''input.pdf'', ''%PDF''), (''output-1.jpg'', ''one''),
                      (''output-2.jpg'', ''two''), (''output-3.jpg'', ''three''),
                      (''output-1.b64'', ''b25l'')]\<rparr>) ''output-2.jpg'' =
     (Some OSError, pdf_world\<lparr>write_fails := [(''output-2.b64'', 3)],
              dir := [(''input.pdf'', ''%PDF''), (''output-1.jpg'', ''one''),
                      (''output-2.jpg'', ''two''), (''output-3.jpg'', ''three''),
                      (''output-1.b64'', ''b25l''), (''output-2.b64'', ''dHd'')]\<rparr>) \<and>
   process_pdf (example_env stable_samples three_pages)
       (pdf_world\<lparr>write_fails := [(''output-2.b64'', 3)]\<rparr>) =
     Some (ConversionError OSError,
           save_timing (pdf_world\<lparr>write_fails := [(''output-2.b64'', 3)],
              dir := [(''input.pdf'', ''%PDF''), (''output-1.jpg'', ''one''),
                      (''output-2.jpg'', ''two''), (''output-3.jpg'', ''three''),
                      (''output-1.b64'', ''b25l''), (''output-2.b64'', ''dHd'')]\<rparr>))"
proof -
  let ?w = "pdf_world\<lparr>write_fails := [(''output-2.b64'', 3)]\<rparr>"
  let ?env = "example_env stable_samples three_pages"
  let ?w1 = "pdf_world\<lparr>write_fails := [(''output-2.b64'', 3)],
              dir := [(''input.pdf'', ''%PDF''), (''output-1.jpg'', ''one''),
                      (''output-2.jpg'', ''two''), (''output-3.jpg'', ''three''),
                      (''output-1.b64'', ''b25l'')]\<rparr>"
  let ?w2 = "pdf_world\<lparr>write_fails := [(''output-2.b64'', 3)],
              dir := [(''input.pdf'', ''%PDF''), (''output-1.jpg'', ''one''),
                      (''output-2.jpg'', ''two''), (''output-3.jpg'', ''three''),
                      (''output-1.b64'', ''b25l''), (''output-2.b64'', ''dHd'')]\<rparr>"
  have a: "is_file_stable default_stable_period (samples ?env) = Some (Inr True)"
    by code_simp
  have b: "getsize ?w input_name = Inr 4" by code_simp
  have c: "conversion ?env = Exited 0 three_pages" by (simp add: example_env_def)
  have d: "jpg_files_of (convert_writes three_pages ?w) =
     [''output-1.jpg''] @ ''output-2.jpg'' # [''output-3.jpg'']" by code_simp
  have e: "encode_pages (convert_writes three_pages ?w) [''output-1.jpg''] = (None, ?w1)"
    by code_simp
  have f: "encode_page ?w1 ''output-2.jpg'' = (Some OSError, ?w2)" by code_simp
  from encoding_error_ends_run [OF a b c d e f] a b c d e f show ?thesis by blast
qed

text \<open>
  C3, as stated, fails: of three pages, the payload of the second cannot be written;
  the third page is then never encoded and nothing is recognised or aggregated.
\<close>

theorem encoding_error_counterexample:
  "map_option fst (process_pdf (example_env stable_samples three_pages)
       (pdf_world\<lparr>unwritable := [''output-2.b64'']\<rparr>)) =
     Some (ConversionError PermissionError) \<and>
   map_option (listdir \<circ> snd) (process_pdf (example_env stable_samples three_pages)
       (pdf_world\<lparr>unwritable := [''output-2.b64'']\<rparr>)) =
     Some [''input.pdf'', ''output-1.jpg'', ''output-2.jpg'', ''output-3.jpg'', ''output-1.b64''] \<and>
   map_option (extracted_text \<circ> snd) (process_pdf (example_env stable_samples three_pages)
       (pdf_world\<lparr>unwritable := [''output-2.b64'']\<rparr>)) = Some None \<and>
   map_option (extracted_structured_text \<circ> snd)
     (process_pdf (example_env stable_samples three_pages)
       (pdf_world\<lparr>unwritable := [''output-2.b64'']\<rparr>)) = Some None \<and>
   map_option (extraction_timing_json \<circ> snd)
     (process_pdf (example_env stable_samples three_pages)
       (pdf_world\<lparr>unwritable := [''output-2.b64'']\<rparr>)) = Some None"
  by code_simp

section \<open>The recognition loop\<close>

lemma recognize_page_skipped_iff:
  "recognize_page env w f = Inr Skipped \<longleftrightarrow>
     (\<exists>n img r. page_num_of f = Inr n \<and> read_payload w f = Inr img \<and>
        document_text_detection env img = Inr r \<and> error_message r \<noteq> [])"
  by (auto simp: recognize_page_def split: sum.splits if_splits)

lemma recognize_page_extracted:
  assumes "recognize_page env w f = Inr (Extracted t pd tm)"
  shows "\<exists>n img r. page_num_of f = Inr n \<and> read_payload w f = Inr img \<and>
           document_text_detection env img = Inr r \<and> error_message r = [] \<and>
           t = full_text_of r \<and> build_page_data n r = Inr pd \<and>
           pd_page_number pd = n \<and> pd_full_text pd = full_text_of r \<and>
           tm = \<lparr>pt_page = n, pt_file = f, pt_total_time = fst (page_clock env f),
                 pt_api_call_time = snd (page_clock env f),
                 pt_text_length = length (full_text_of r)\<rparr>"
proof -
  from assms obtain n img r where
    a: "page_num_of f = Inr n" "read_payload w f = Inr img"
      "document_text_detection env img = Inr r" "error_message r = []"
      "build_page_data n r = Inr pd" "t = full_text_of r"
      "tm = \<lparr>pt_page = n, pt_file = f, pt_total_time = fst (page_clock env f),
                 pt_api_call_time = snd (page_clock env f),
                 pt_text_length = length (full_text_of r)\<rparr>"
    by (auto simp: recognize_page_def split: sum.splits if_splits)
  from a(5) have "pd_page_number pd = n" "pd_full_text pd = full_text_of r"
    by (auto simp: build_page_data_def split: sum.splits)
  with a show ?thesis by blast
qed

lemma recognize_pages_entries:
  "recognize_pages env w fs (ts, ds, tms) = Inr (ts', ds', tms') \<Longrightarrow>
     \<exists>ts2 ds2 tms2. ts' = ts @ ts2 \<and> ds' = ds @ ds2 \<and> tms' = tms @ tms2 \<and>
       length ts2 = length tms2 \<and> length ds2 = length tms2 \<and>
       list_all2 (\<lambda>f (t, pd, tm). recognize_page env w f = Inr (Extracted t pd tm))
         (filter (\<lambda>f. recognize_page env w f \<noteq> Inr Skipped) fs) (zip ts2 (zip ds2 tms2))"
proof (induction fs arbitrary: ts ds tms)
  case Nil
  then show ?case by simp
next
  case (Cons f fs)
  show ?case
  proof (cases "recognize_page env w f")
    case (Inl e)
    with Cons.prems show ?thesis by simp
  next
    case (Inr res)
    show ?thesis
    proof (cases res)
      case Skipped
      with Inr Cons.prems have "recognize_pages env w fs (ts, ds, tms) = Inr (ts', ds', tms')"
        by simp
      from Cons.IH [OF this] Inr Skipped show ?thesis by simp
    next
      case (Extracted t pd tm)
      with Inr Cons.prems have
        "recognize_pages env w fs (ts @ [t], ds @ [pd], tms @ [tm]) = Inr (ts', ds', tms')"
        by simp
      from Cons.IH [OF this] obtain ts2 ds2 tms2 where
        r: "ts' = (ts @ [t]) @ ts2" "ds' = (ds @ [pd]) @ ds2" "tms' = (tms @ [tm]) @ tms2"
          "length ts2 = length tms2" "length ds2 = length tms2"
          "list_all2 (\<lambda>f (t, pd, tm). recognize_page env w f = Inr (Extracted t pd tm))
             (filter (\<lambda>f. recognize_page env w f \<noteq> Inr Skipped) fs) (zip ts2 (zip ds2 tms2))"
        by blast
      have "ts' = ts @ (t # ts2) \<and> ds' = ds @ (pd # ds2) \<and> tms' = tms @ (tm # tms2) \<and>
        length (t # ts2) = length (tm # tms2) \<and> length (pd # ds2) = length (tm # tms2) \<and>
        list_all2 (\<lambda>f (t, pd, tm). recognize_page env w f = Inr (Extracted t pd tm))
          (filter (\<lambda>f. recognize_page env w f \<noteq> Inr Skipped) (f # fs))
          (zip (t # ts2) (zip (pd # ds2) (tm # tms2)))"
        using r Inr Extracted by simp
      then show ?thesis by blast
    qed
  qed
qed

lemma recognize_pages_returns:
  "\<forall>f \<in> set fs. \<exists>r. recognize_page env w f = Inr r \<Longrightarrow>
     \<exists>res. recognize_pages env w fs acc = Inr res"
proof (induction fs arbitrary: acc)
  case Nil
  show ?case by (simp del: split_paired_Ex)
next
  case (Cons f fs)
  then obtain r where r: "recognize_page env w f = Inr r" by auto
  from Cons have ih: "\<And>acc. \<exists>res. recognize_pages env w fs acc = Inr res" by simp
  show ?case
  proof (cases r)
    case Skipped
    with r ih [of acc] show ?thesis by simp
  next
    case (Extracted t pd tm)
    obtain ts ds tms where acc: "acc = (ts, ds, tms)" by (metis prod_cases3)
    from r Extracted ih [of "(ts @ [t], ds @ [pd], tms @ [tm])"] show ?thesis
      unfolding acc by simp
  qed
qed

lemma report_averages_fields:
  "unwritable (report_averages w tms) = unwritable w"
  "write_fails (report_averages w tms) = write_fails w"
  by (simp_all add: report_averages_def Let_def)

lemma save_results_writable:
  assumes "''extraction_timing.json'' \<notin> set (unwritable w)"
    and "''extracted_text.txt'' \<notin> set (unwritable w)"
    and "''extracted_structured_text.json'' \<notin> set (unwritable w)"
    and "map_of (write_fails w) ''extraction_timing.json'' = None"
    and "map_of (write_fails w) ''extracted_text.txt'' = None"
    and "map_of (write_fails w) ''extracted_structured_text.json'' = None"
  shows "save_results w (texts, datas, timings) =
     (None, w\<lparr>extraction_timing_json :=
                Some \<lparr>et_pages = timings, et_total_pages = length timings\<rparr>,
              extracted_text := Some (join [CHR 10, CHR 10] texts),
              extracted_structured_text := Some datas\<rparr>)"
  using assms by (simp add: save_results_def Let_def)

lemma extract_saves:
  assumes files: "b64_files_of w \<noteq> []" and client: "client_created env"
    and writable: "''extraction_timing.json'' \<notin> set (unwritable w)"
      "''extracted_text.txt'' \<notin> set (unwritable w)"
      "''extracted_structured_text.json'' \<notin> set (unwritable w)"
      "map_of (write_fails w) ''extraction_timing.json'' = None"
      "map_of (write_fails w) ''extracted_text.txt'' = None"
      "map_of (write_fails w) ''extracted_structured_text.json'' = None"
    and res: "recognize_pages env w (b64_files_of w) ([], [], []) = Inr (texts, datas, timings)"
  shows "extract_text_from_b64_images env w =
     (None, (report_averages w timings)\<lparr>extraction_timing_json :=
                Some \<lparr>et_pages = timings, et_total_pages = length timings\<rparr>,
              extracted_text := Some (join [CHR 10, CHR 10] texts),
              extracted_structured_text := Some datas\<rparr>)"
proof -
  have "extract_text_from_b64_images env w =
      save_results (report_averages w timings) (texts, datas, timings)"
    using files client res by (simp add: extract_text_from_b64_images_def Let_def)
  also have "\<dots> = (None, (report_averages w timings)\<lparr>extraction_timing_json :=
                Some \<lparr>et_pages = timings, et_total_pages = length timings\<rparr>,
              extracted_text := Some (join [CHR 10, CHR 10] texts),
              extracted_structured_text := Some datas\<rparr>)"
    by (rule save_results_writable) (simp_all add: report_averages_fields writable)
  finally show ?thesis .
qed

text \<open>
  C4. An iteration of the recognition loop ends in \<^verbatim>\<open>continue\<close> exactly when the
  service's response for the page carries an error message. Such pages do not stop the
  run: when no iteration raises an exception (each page is either skipped in this way or
  extracted) and the three output files can be written, the extraction returns normally
  with all three written. What is written has one text, one structured entry and one
  timing entry for each page that was not skipped, in the order of the files, and none
  for a skipped page: for such a page the text is the full text of its response, the
  structured entry is the one built from the response under the page number of the file,
  and the timing entry names the page number, the file and the length of the text.
\<close>

theorem ocr_error_skips_page:
  assumes files: "b64_files_of w \<noteq> []" and client: "client_created env"
    and pages: "\<forall>f \<in> set (b64_files_of w). \<exists>r. recognize_page env w f = Inr r"
    and writable: "''extraction_timing.json'' \<notin> set (unwritable w)"
      "''extracted_text.txt'' \<notin> set (unwritable w)"
      "''extracted_structured_text.json'' \<notin> set (unwritable w)"
      "map_of (write_fails w) ''extraction_timing.json'' = None"
      "map_of (write_fails w) ''extracted_text.txt'' = None"
      "map_of (write_fails w) ''extracted_structured_text.json'' = None"
  shows "(\<forall>f. recognize_page env w f = Inr Skipped \<longleftrightarrow>
            (\<exists>n img r. page_num_of f = Inr n \<and> read_payload w f = Inr img \<and>
               document_text_detection env img = Inr r \<and> error_message r \<noteq> [])) \<and>
         (\<exists>texts datas timings.
            extract_text_from_b64_images env w =
              (None, (report_averages w timings)\<lparr>extraction_timing_json :=
                         Some \<lparr>et_pages = timings, et_total_pages = length timings\<rparr>,
                       extracted_text := Some (join [CHR 10, CHR 10] texts),
                       extracted_structured_text := Some datas\<rparr>) \<and>
            length texts = length timings \<and> length datas = length timings \<and>
            list_all2
              (\<lambda>f (t, pd, tm).
                 \<exists>n img r. page_num_of f = Inr n \<and> read_payload w f = Inr img \<and>
                   document_text_detection env img = Inr r \<and> error_message r = [] \<and>
                   t = full_text_of r \<and> build_page_data n r = Inr pd \<and>
                   pd_page_number pd = n \<and> pd_full_text pd = full_text_of r \<and>
                   tm = \<lparr>pt_page = n, pt_file = f, pt_total_time = fst (page_clock env f),
                         pt_api_call_time = snd (page_clock env f),
                         pt_text_length = length (full_text_of r)\<rparr>)
              (filter (\<lambda>f. recognize_page env w f \<noteq> Inr Skipped) (b64_files_of w))
              (zip texts (zip datas timings)))"
proof
  show "\<forall>f. recognize_page env w f = Inr Skipped \<longleftrightarrow>
            (\<exists>n img r. page_num_of f = Inr n \<and> read_payload w f = Inr img \<and>
               document_text_detection env img = Inr r \<and> error_message r \<noteq> [])"
    using recognize_page_skipped_iff by blast
next
  from recognize_pages_returns [OF pages, of "([], [], [])"]
  obtain texts datas timings where
    res: "recognize_pages env w (b64_files_of w) ([], [], []) = Inr (texts, datas, timings)"
    by (metis prod_cases3)
  from recognize_pages_entries [OF res]
  have len: "length texts = length timings" "length datas = length timings"
    and rel: "list_all2 (\<lambda>f (t, pd, tm). recognize_page env w f = Inr (Extracted t pd tm))
         (filter (\<lambda>f. recognize_page env w f \<noteq> Inr Skipped) (b64_files_of w))
         (zip texts (zip datas timings))"
    by auto
  from rel have pinned: "list_all2
              (\<lambda>f (t, pd, tm).
                 \<exists>n img r. page_num_of f = Inr n \<and> read_payload w f = Inr img \<and>
                   document_text_detection env img = Inr r \<and> error_message r = [] \<and>
                   t = full_text_of r \<and> build_page_data n r = Inr pd \<and>
                   pd_page_number pd = n \<and> pd_full_text pd = full_text_of r \<and>
                   tm = \<lparr>pt_page = n, pt_file = f, pt_total_time = fst (page_clock env f),
                         pt_api_call_time = snd (page_clock env f),
                         pt_text_length = length (full_text_of r)\<rparr>)
              (filter (\<lambda>f. recognize_page env w f \<noteq> Inr Skipped) (b64_files_of w))
              (zip texts (zip datas timings))"
    by (rule list_all2_mono) (auto dest: recognize_page_extracted)
  from extract_saves [OF files client writable res] len pinned
  show "\<exists>texts datas timings.
            extract_text_from_b64_images env w =
              (None, (report_averages w timings)\<lparr>extraction_timing_json :=
                         Some \<lparr>et_pages = timings, et_total_pages = length timings\<rparr>,
                       extracted_text := Some (join [CHR 10, CHR 10] texts),
                       extracted_structured_text := Some datas\<rparr>) \<and>
            length texts = length timings \<and> length datas = length timings \<and>
            list_all2
              (\<lambda>f (t, pd, tm).
                 \<exists>n img r. page_num_of f = Inr n \<and> read_payload w f = Inr img \<and>
                   document_text_detection env img = Inr r \<and> error_message r = [] \<and>
                   t = full_text_of r \<and> build_page_data n r = Inr pd \<and>
                   pd_page_number pd = n \<and> pd_full_text pd = full_text_of r \<and>
                   tm = \<lparr>pt_page = n, pt_file = f, pt_total_time = fst (page_clock env f),
                         pt_api_call_time = snd (page_clock env f),
                         pt_text_length = length (full_text_of r)\<rparr>)
              (filter (\<lambda>f. recognize_page env w f \<noteq> Inr Skipped) (b64_files_of w))
              (zip texts (zip datas timings))"
    by blast
qed


theorem ocr_error_skips_page_witness:
  "b64_files_of payload_world \<noteq> [] \<and>
   client_created (example_env stable_samples []) \<and>
   ''extraction_timing.json'' \<notin> set (unwritable payload_world) \<and>
   ''extracted_text.txt'' \<notin> set (unwritable payload_world) \<and>
   ''extracted_structured_text.json'' \<notin> set (unwritable payload_world) \<and>
   map_of (write_fails payload_world) ''extraction_timing.json'' = None \<and>
   map_of (write_fails payload_world) ''extracted_text.txt'' = None \<and>
   map_of (write_fails payload_world) ''extracted_structured_text.json'' = None \<and>
   recognize_page (example_env stable_samples []) payload_world ''output-2.b64'' = Inr Skipped \<and>
   extract_text_from_b64_images (example_env stable_samples []) payload_world =
     (None, payload_world\<lparr>reported_averages := Some (3, 2),
        extraction_timing_json :=
          Some \<lparr>et_pages =
                  [\<lparr>pt_page = 1, pt_file = ''output-1.b64'', pt_total_time = 3,
                    pt_api_call_time = 2, pt_text_length = 3\<rparr>,
                   \<lparr>pt_page = 3, pt_file = ''output-3.b64'', pt_total_time = 3,
                    pt_api_call_time = 2, pt_text_length = 0\<rparr>,
                   \<lparr>pt_page = 4, pt_file = ''output-4.b64'', pt_total_time = 3,
                    pt_api_call_time = 2, pt_text_length = 4\<rparr>],
                et_total_pages = 3\<rparr>,
        extracted_text := Some (''one'' @ [CHR 10, CHR 10] @ [CHR 10, CHR 10] @ ''four''),
        extracted_structured_text :=
          Some [\<lparr>pd_page_number = 1, pd_full_text = ''one'', pd_blocks = []\<rparr>,
                \<lparr>pd_page_number = 3, pd_full_text = [], pd_blocks = []\<rparr>,
                \<lparr>pd_page_number = 4, pd_full_text = ''four'', pd_blocks = []\<rparr>]\<rparr>) \<and>
   (\<exists>texts datas timings.
      extract_text_from_b64_images (example_env stable_samples []) payload_world =
        (None, (report_averages payload_world timings)\<lparr>extraction_timing_json :=
                   Some \<lparr>et_pages = timings, et_total_pages = length timings\<rparr>,
                 extracted_text := Some (join [CHR 10, CHR 10] texts),
                 extracted_structured_text := Some datas\<rparr>) \<and>
      length texts = length timings \<and> length datas = length timings \<and>
      list_all2
        (\<lambda>f (t, pd, tm).
           \<exists>n img r. page_num_of f = Inr n \<and> read_payload payload_world f = Inr img \<and>
             document_text_detection (example_env stable_samples []) img = Inr r \<and>
             error_message r = [] \<and>
             t = full_text_of r \<and> build_page_data n r = Inr pd \<and>
             pd_page_number pd = n \<and> pd_full_text pd = full_text_of r \<and>
             tm = \<lparr>pt_page = n, pt_file = f,
                   pt_total_time = fst (page_clock (example_env stable_samples []) f),
                   pt_api_call_time = snd (page_clock (example_env stable_samples []) f),
                   pt_text_length = length (full_text_of r)\<rparr>)
        [''output-1.b64'', ''output-3.b64'', ''output-4.b64'']
        (zip texts (zip datas timings)))"
proof -
  let ?env = "example_env stable_samples []"
  have a: "b64_files_of payload_world \<noteq> []" by code_simp
  have b: "client_created ?env" by (simp add: example_env_def)
  have "list_all (\<lambda>f. \<not> isl (recognize_page ?env payload_world f)) (b64_files_of payload_world)"
    by code_simp
  then have c: "\<forall>f \<in> set (b64_files_of payload_world).
      \<exists>r. recognize_page ?env payload_world f = Inr r"
    unfolding list_all_iff by (metis sum.collapse(2))
  have d: "''extraction_timing.json'' \<notin> set (unwritable payload_world)"
    "''extracted_text.txt'' \<notin> set (unwritable payload_world)"
    "''extracted_structured_text.json'' \<notin> set (unwritable payload_world)"
    "map_of (write_fails payload_world) ''extraction_timing.json'' = None"
    "map_of (write_fails payload_world) ''extracted_text.txt'' = None"
    "map_of (write_fails payload_world) ''extracted_structured_text.json'' = None"
    by (simp_all add: payload_world_def empty_world_def)
  have e: "recognize_page ?env payload_world ''output-2.b64'' = Inr Skipped" by code_simp
  have f: "filter (\<lambda>f. recognize_page ?env payload_world f \<noteq> Inr Skipped)
      (b64_files_of payload_world) = [''output-1.b64'', ''output-3.b64'', ''output-4.b64'']"
    by code_simp
  have g: "extract_text_from_b64_images ?env payload_world =
     (None, payload_world\<lparr>reported_averages := Some (3, 2),
        extraction_timing_json :=
          Some \<lparr>et_pages =
                  [\<lparr>pt_page = 1, pt_file = ''output-1.b64'', pt_total_time = 3,
                    pt_api_call_time = 2, pt_text_length = 3\<rparr>,
                   \<lparr>pt_page = 3, pt_file = ''output-3.b64'', pt_total_time = 3,
                    pt_api_call_time = 2, pt_text_length = 0\<rparr>,
                   \<lparr>pt_page = 4, pt_file = ''output-4.b64'', pt_total_time = 3,
                    pt_api_call_time = 2, pt_text_length = 4\<rparr>],
                et_total_pages = 3\<rparr>,
        extracted_text := Some (''one'' @ [CHR 10, CHR 10] @ [CHR 10, CHR 10] @ ''four''),
        extracted_structured_text :=
          Some [\<lparr>pd_page_number = 1, pd_full_text = ''one'', pd_blocks = []\<rparr>,
                \<lparr>pd_page_number = 3, pd_full_text = [], pd_blocks = []\<rparr>,
                \<lparr>pd_page_number = 4, pd_full_text = ''four'', pd_blocks = []\<rparr>]\<rparr>)"
    by code_simp
  from ocr_error_skips_page [OF a b c d] a b d e g show ?thesis unfolding f by blast
qed

text \<open>
  The whole run for a document of three pages whose second page the service refuses: it
  ends as completed, with pages 1 and 3 in the structured data, in the timing entries
  and in the text.
\<close>

lemma run_with_refused_page:
  "map_option fst (process_pdf (example_env stable_samples second_page_refused) pdf_world) =
     Some Completed \<and>
   map_option (map_option (map pd_page_number) \<circ> extracted_structured_text \<circ> snd)
       (process_pdf (example_env stable_samples second_page_refused) pdf_world) =
     Some (Some [1, 3]) \<and>
   map_option (map_option (map pt_page \<circ> et_pages) \<circ> extraction_timing_json \<circ> snd)
       (process_pdf (example_env stable_samples second_page_refused) pdf_world) =
     Some (Some [1, 3]) \<and>
   map_option (extracted_text \<circ> snd)
       (process_pdf (example_env stable_samples second_page_refused) pdf_world) =
     Some (Some (''one'' @ [CHR 10, CHR 10] @ ''three''))"
  by code_simp

lemma recognize_pages_shift:
  "recognize_pages env w fs (ts, ds, tms) = Inr (ts', ds', tms') \<Longrightarrow>
     recognize_pages env w fs (a @ ts, b @ ds, c @ tms) = Inr (a @ ts', b @ ds', c @ tms')"
proof (induction fs arbitrary: ts ds tms)
  case Nil
  then show ?case by simp
next
  case (Cons f fs)
  show ?case
  proof (cases "recognize_page env w f")
    case (Inl e)
    with Cons.prems show ?thesis by simp
  next
    case (Inr res)
    show ?thesis
    proof (cases res)
      case Skipped
      with Inr Cons.prems Cons.IH [of ts ds tms] show ?thesis by simp
    next
      case (Extracted t pd tm)
      with Inr Cons.prems Cons.IH [of "ts @ [t]" "ds @ [pd]" "tms @ [tm]"]
      show ?thesis by simp
    qed
  qed
qed

lemma recognize_pages_append:
  "recognize_pages env w before acc = Inr acc' \<Longrightarrow>
     recognize_pages env w (before @ rest) acc = recognize_pages env w rest acc'"
proof (induction before arbitrary: acc)
  case Nil
  then show ?case by simp
next
  case (Cons f fs)
  show ?case
  proof (cases "recognize_page env w f")
    case (Inl e)
    with Cons.prems show ?thesis by simp
  next
    case (Inr res)
    obtain ts ds tms where acc: "acc = (ts, ds, tms)" by (metis prod_cases3)
    show ?thesis
    proof (cases res)
      case Skipped
      with Inr Cons.prems Cons.IH [of acc] show ?thesis by simp
    next
      case (Extracted t pd tm)
      with Inr Cons.prems Cons.IH [of "(ts @ [t], ds @ [pd], tms @ [tm])"]
      show ?thesis unfolding acc by simp
    qed
  qed
qed

lemma join_append:
  "xs \<noteq> [] \<Longrightarrow> ys \<noteq> [] \<Longrightarrow> join sep (xs @ ys) = join sep xs @ sep @ join sep ys"
proof (induction sep xs rule: join.induct)
  case (1 sep)
  then show ?case by simp
next
  case (2 sep p)
  then show ?case by (cases ys) simp_all
next
  case (3 sep p q ps)
  then show ?case by simp
qed

lemma join_empty_segment:
  "join sep (ts1 @ [[]] @ ts2) =
     join sep ts1 @ (if ts1 = [] then [] else sep) @ (if ts2 = [] then [] else sep) @ join sep ts2"
proof (cases "ts2 = []")
  case True
  then show ?thesis by (cases "ts1 = []") (simp_all add: join_append)
next
  case False
  then have a: "join sep ([[]] @ ts2) = sep @ join sep ts2"
    using join_append [of "[[]]" ts2 sep] by simp
  show ?thesis
  proof (cases "ts1 = []")
    case True
    with a False show ?thesis by simp
  next
    case ne: False
    have "join sep (ts1 @ ([[]] @ ts2)) = join sep ts1 @ sep @ join sep ([[]] @ ts2)"
      using ne by (intro join_append) simp_all
    with a False ne show ?thesis by simp
  qed
qed

text \<open>
  C10. Let the response for one of the payload files carry no error and no full-text
  annotation, and let the pages before and after it be recognised without an exception.
  Then the extraction returns normally, and what it writes holds the page like any
  other: the structured data have an entry for it with the empty \<open>full_text\<close> and no
  blocks, between the entries of the pages before and after; the timing entries have
  one for it, with text length 0, and it is counted in \<open>total_pages\<close>; the text file
  has the empty segment at its place, and with it one more separator; and both averages
  that are reported divide by the number of entries with this page among them and have
  its two durations in their sums.
\<close>

theorem empty_annotation_page_recorded:
  assumes files: "b64_files_of w = before @ f # after"
    and client: "client_created env"
    and writable: "''extraction_timing.json'' \<notin> set (unwritable w)"
      "''extracted_text.txt'' \<notin> set (unwritable w)"
      "''extracted_structured_text.json'' \<notin> set (unwritable w)"
      "map_of (write_fails w) ''extraction_timing.json'' = None"
      "map_of (write_fails w) ''extracted_text.txt'' = None"
      "map_of (write_fails w) ''extracted_structured_text.json'' = None"
    and page: "page_num_of f = Inr n" "read_payload w f = Inr img"
      "document_text_detection env img = Inr r"
    and no_error: "error_message r = []"
    and no_annotation: "\<not> annotation_present (full_text_annotation r)"
    and others: "recognize_pages env w before ([], [], []) = Inr (ts1, ds1, tms1)"
      "recognize_pages env w after ([], [], []) = Inr (ts2, ds2, tms2)"
  shows "extract_text_from_b64_images env w =
     (None, w\<lparr>reported_averages :=
                Some ((sum_list (map pt_total_time tms1) + fst (page_clock env f) +
                         sum_list (map pt_total_time tms2)) /
                        real (length tms1 + 1 + length tms2),
                      (sum_list (map pt_api_call_time tms1) + snd (page_clock env f) +
                         sum_list (map pt_api_call_time tms2)) /
                        real (length tms1 + 1 + length tms2)),
              extraction_timing_json :=
                Some \<lparr>et_pages =
                        tms1 @ [\<lparr>pt_page = n, pt_file = f,
                                 pt_total_time = fst (page_clock env f),
                                 pt_api_call_time = snd (page_clock env f),
                                 pt_text_length = 0\<rparr>] @ tms2,
                      et_total_pages = length tms1 + 1 + length tms2\<rparr>,
              extracted_text :=
                Some (join [CHR 10, CHR 10] ts1 @
                      (if ts1 = [] then [] else [CHR 10, CHR 10]) @
                      (if ts2 = [] then [] else [CHR 10, CHR 10]) @
                      join [CHR 10, CHR 10] ts2),
              extracted_structured_text :=
                Some (ds1 @ [\<lparr>pd_page_number = n, pd_full_text = [], pd_blocks = []\<rparr>] @ ds2)\<rparr>)"
proof -
  let ?pd = "\<lparr>pd_page_number = n, pd_full_text = [], pd_blocks = []\<rparr>"
  let ?tm = "\<lparr>pt_page = n, pt_file = f, pt_total_time = fst (page_clock env f),
              pt_api_call_time = snd (page_clock env f), pt_text_length = 0\<rparr>"
  from no_annotation have empty: "ta_pages (full_text_annotation r) = []"
    by (simp add: annotation_present_def)
  have ft: "full_text_of r = []"
    using no_annotation by (simp add: full_text_of_def)
  have "build_page_data n r = Inr ?pd"
    using empty ft by (simp add: build_page_data_def build_blocks_def)
  then have one: "recognize_page env w f = Inr (Extracted [] ?pd ?tm)"
    using page no_error ft by (simp add: recognize_page_def)
  have "recognize_pages env w (f # after) (ts1, ds1, tms1) =
      recognize_pages env w after (ts1 @ [[]], ds1 @ [?pd], tms1 @ [?tm])"
    using one by simp
  also have "\<dots> = Inr ((ts1 @ [[]]) @ ts2, (ds1 @ [?pd]) @ ds2, (tms1 @ [?tm]) @ tms2)"
    using recognize_pages_shift [of env w after "[]" "[]" "[]" ts2 ds2 tms2
        "ts1 @ [[]]" "ds1 @ [?pd]" "tms1 @ [?tm]"] others(2) by simp
  finally have "recognize_pages env w (b64_files_of w) ([], [], []) =
      Inr (ts1 @ [[]] @ ts2, ds1 @ [?pd] @ ds2, tms1 @ [?tm] @ tms2)"
    unfolding files using recognize_pages_append [OF others(1), of "f # after"] by simp
  moreover have "b64_files_of w \<noteq> []" using files by simp
  ultimately have "extract_text_from_b64_images env w =
     (None, (report_averages w (tms1 @ [?tm] @ tms2))\<lparr>extraction_timing_json :=
                Some \<lparr>et_pages = tms1 @ [?tm] @ tms2,
                      et_total_pages = length (tms1 @ [?tm] @ tms2)\<rparr>,
              extracted_text := Some (join [CHR 10, CHR 10] (ts1 @ [[]] @ ts2)),
              extracted_structured_text := Some (ds1 @ [?pd] @ ds2)\<rparr>)"
    using extract_saves [OF _ client writable] by blast
  moreover have "report_averages w (tms1 @ [?tm] @ tms2) =
      w\<lparr>reported_averages :=
          Some ((sum_list (map pt_total_time tms1) + fst (page_clock env f) +
                   sum_list (map pt_total_time tms2)) /
                  real (length tms1 + 1 + length tms2),
                (sum_list (map pt_api_call_time tms1) + snd (page_clock env f) +
                   sum_list (map pt_api_call_time tms2)) /
                  real (length tms1 + 1 + length tms2))\<rparr>"
    by (simp add: report_averages_def Let_def add.assoc)
  moreover have "length (tms1 @ [?tm] @ tms2) = length tms1 + 1 + length tms2"
    by simp
  moreover note join_empty_segment [of "[CHR 10, CHR 10]" ts1 ts2]
  ultimately show ?thesis by (simp only:)
qed


theorem empty_annotation_page_recorded_witness:
  "b64_files_of payload_world = [''output-1.b64'', ''output-2.b64''] @ ''output-3.b64'' # [''output-4.b64''] \<and>
   client_created (example_env stable_samples []) \<and>
   page_num_of ''output-3.b64'' = Inr 3 \<and>
   read_payload payload_world ''output-3.b64'' = Inr ''blank'' \<and>
   document_text_detection (example_env stable_samples []) ''blank'' =
     Inr \<lparr>error_message = [], full_text_annotation = \<lparr>ta_pages = [], ta_text = []\<rparr>\<rparr> \<and>
   \<not> annotation_present \<lparr>ta_pages = [], ta_text = []\<rparr> \<and>
   recognize_pages (example_env stable_samples []) payload_world
       [''output-1.b64'', ''output-2.b64''] ([], [], []) =
     Inr ([''one''], [\<lparr>pd_page_number = 1, pd_full_text = ''one'', pd_blocks = []\<rparr>],
          [\<lparr>pt_page = 1, pt_file = ''output-1.b64'', pt_total_time = 3,
            pt_api_call_time = 2, pt_text_length = 3\<rparr>]) \<and>
   recognize_pages (example_env stable_samples []) payload_world [''output-4.b64''] ([], [], []) =
     Inr ([''four''], [\<lparr>pd_page_number = 4, pd_full_text = ''four'', pd_blocks = []\<rparr>],
          [\<lparr>pt_page = 4, pt_file = ''output-4.b64'', pt_total_time = 3,
            pt_api_call_time = 2, pt_text_length = 4\<rparr>]) \<and>
   extract_text_from_b64_images (example_env stable_samples []) payload_world =
     (None, payload_world\<lparr>reported_averages := Some (3, 2),
        extraction_timing_json :=
          Some \<lparr>et_pages =
                  [\<lparr>pt_page = 1, pt_file = ''output-1.b64'', pt_total_time = 3,
                    pt_api_call_time = 2, pt_text_length = 3\<rparr>,
                   \<lparr>pt_page = 3, pt_file = ''output-3.b64'', pt_total_time = 3,
                    pt_api_call_time = 2, pt_text_length = 0\<rparr>,
                   \<lparr>pt_page = 4, pt_file = ''output-4.b64'', pt_total_time = 3,
                    pt_api_call_time = 2, pt_text_length = 4\<rparr>],
                et_total_pages = 3\<rparr>,
        extracted_text := Some (''one'' @ [CHR 10, CHR 10] @ [CHR 10, CHR 10] @ ''four''),
        extracted_structured_text :=
          Some [\<lparr>pd_page_number = 1, pd_full_text = ''one'', pd_blocks = []\<rparr>,
                \<lparr>pd_page_number = 3, pd_full_text = [], pd_blocks = []\<rparr>,
                \<lparr>pd_page_number = 4, pd_full_text = ''four'', pd_blocks = []\<rparr>]\<rparr>)"
proof -
  let ?env = "example_env stable_samples []"
  let ?r = "\<lparr>error_message = [], full_text_annotation = \<lparr>ta_pages = [], ta_text = []\<rparr>\<rparr>"
  have a: "b64_files_of payload_world =
      [''output-1.b64'', ''output-2.b64''] @ ''output-3.b64'' # [''output-4.b64'']"
    by code_simp
  have b: "client_created ?env" by (simp add: example_env_def)
  have d: "''extraction_timing.json'' \<notin> set (unwritable payload_world)"
    "''extracted_text.txt'' \<notin> set (unwritable payload_world)"
    "''extracted_structured_text.json'' \<notin> set (unwritable payload_world)"
    "map_of (write_fails payload_world) ''extraction_timing.json'' = None"
    "map_of (write_fails payload_world) ''extracted_text.txt'' = None"
    "map_of (write_fails payload_world) ''extracted_structured_text.json'' = None"
    by (simp_all add: payload_world_def empty_world_def)
  have p: "page_num_of ''output-3.b64'' = Inr 3"
    "read_payload payload_world ''output-3.b64'' = Inr ''blank''"
    by code_simp+
  have q: "document_text_detection ?env ''blank'' = Inr ?r"
    by (simp add: example_env_def example_detect_def)
  have e: "error_message ?r = []" by simp
  have f: "\<not> annotation_present (full_text_annotation ?r)"
    by (simp add: annotation_present_def)
  have f': "\<not> annotation_present \<lparr>ta_pages = [], ta_text = []\<rparr>"
    by (simp add: annotation_present_def)
  have g: "recognize_pages ?env payload_world [''output-1.b64'', ''output-2.b64''] ([], [], []) =
     Inr ([''one''], [\<lparr>pd_page_number = 1, pd_full_text = ''one'', pd_blocks = []\<rparr>],
          [\<lparr>pt_page = 1, pt_file = ''output-1.b64'', pt_total_time = 3,
            pt_api_call_time = 2, pt_text_length = 3\<rparr>])"
    by code_simp
  have h: "recognize_pages ?env payload_world [''output-4.b64''] ([], [], []) =
     Inr ([''four''], [\<lparr>pd_page_number = 4, pd_full_text = ''four'', pd_blocks = []\<rparr>],
          [\<lparr>pt_page = 4, pt_file = ''output-4.b64'', pt_total_time = 3,
            pt_api_call_time = 2, pt_text_length = 4\<rparr>])"
    by code_simp
  have k: "page_clock ?env ''output-3.b64'' = (3, 2)" by (simp add: example_env_def)
  from empty_annotation_page_recorded [OF a b d p q e f g h] a b p q f' g h
  show ?thesis by (simp add: k)
qed

section \<open>The order of pages\<close>

text \<open>
  C2. \<^verbatim>\<open>sorted\<close> orders the file names as strings, so the payload of page 10 comes
  before that of page 2. In a complete run over these two pages, the structured data,
  the timing entries and the joined text all have page 10 first.
\<close>

theorem pages_in_filename_order:
  "b64_files_of (empty_world\<lparr>dir := [(''output-2.b64'', []), (''output-10.b64'', [])]\<rparr>) =
     [''output-10.b64'', ''output-2.b64''] \<and>
   map_option fst (process_pdf (example_env stable_samples mixed_width_pages) pdf_world) =
     Some Completed \<and>
   map_option (map_option (map pd_page_number) \<circ> extracted_structured_text \<circ> snd)
       (process_pdf (example_env stable_samples mixed_width_pages) pdf_world) =
     Some (Some [10, 2]) \<and>
   map_option (map_option (map pt_page \<circ> et_pages) \<circ> extraction_timing_json \<circ> snd)
       (process_pdf (example_env stable_samples mixed_width_pages) pdf_world) =
     Some (Some [10, 2]) \<and>
   map_option (extracted_text \<circ> snd)
       (process_pdf (example_env stable_samples mixed_width_pages) pdf_world) =
     Some (Some (''ten'' @ [CHR 10, CHR 10] @ ''two''))"
  by code_simp



end
